theory Spec2Isabelle
  imports Main "HOL-Library.Log_Nat"
begin

section \<open>Python values used by the detector and the alert bus\<close>

subsection \<open>Floats\<close>

text \<open>
  A Python \<open>float\<close> is an IEEE-754 binary64 number. A finite float is modelled by the
  rational it denotes; every arithmetic operation computes the exact rational result and
  rounds it to the nearest binary64 value, ties to even (\<open>fl\<close>), with the gradual
  underflow of the format (quantum \<open>2^-1074\<close>). Infinities and NaN are not modelled:
  the development is about finite inputs whose results stay below \<open>2^1024\<close>.
  Comparisons of floats, and of a float with an \<open>int\<close>, are exact in Python and are
  the order of the rationals here.
\<close>

type_synonym pyfloat = rat

definition round_half_even :: "rat \<Rightarrow> int" where
  "round_half_even q =
     (let f = \<lfloor>q\<rfloor>; r = q - of_int f
      in if r < 1 / 2 then f
         else if 1 / 2 < r then f + 1
         else if even f then f else f + 1)"

text \<open>\<open>ilog2 q\<close> is the exponent \<open>e\<close> with \<open>2^e \<le> q < 2^(e+1)\<close>, for \<open>q > 0\<close>.\<close>

definition ilog2 :: "rat \<Rightarrow> int" where
  "ilog2 q =
     (let (n, d) = quotient_of q;
          e = int (floorlog 2 (nat n)) - int (floorlog 2 (nat d))
      in if q < power_int 2 e then e - 1 else e)"

definition fl :: "rat \<Rightarrow> pyfloat" where
  "fl q =
     (if q = 0 then 0
      else let a = \<bar>q\<bar>;
               p = max (ilog2 a - 52) (- 1074);
               m = round_half_even (a / power_int 2 p)
           in sgn q * of_int m * power_int 2 p)"

definition fadd :: "pyfloat \<Rightarrow> pyfloat \<Rightarrow> pyfloat" where
  "fadd a b = fl (a + b)"

definition fsub :: "pyfloat \<Rightarrow> pyfloat \<Rightarrow> pyfloat" where
  "fsub a b = fl (a - b)"

definition fmul :: "pyfloat \<Rightarrow> pyfloat \<Rightarrow> pyfloat" where
  "fmul a b = fl (a * b)"

definition fabs :: "pyfloat \<Rightarrow> pyfloat" where
  "fabs a = \<bar>a\<bar>"

datatype error = ZeroDivisionError | IndexError | TypeError | ValueError | OSError
  | ClientError

text \<open>\<open>a / b\<close> raises ZeroDivisionError when \<open>b\<close> is zero.\<close>

definition fdiv :: "pyfloat \<Rightarrow> pyfloat \<Rightarrow> error + pyfloat" where
  "fdiv a b = (if b = 0 then Inl ZeroDivisionError else Inr (fl (a / b)))"

text \<open>
  \<open>round(x, ndigits)\<close> on a float: the exact value of \<open>x\<close> is rounded to \<open>ndigits\<close>
  decimals (ties to even) and the decimal is converted back to the nearest float.
\<close>

definition py_round :: "pyfloat \<Rightarrow> nat \<Rightarrow> pyfloat" where
  "py_round x ndigits = fl (of_int (round_half_even (x * 10 ^ ndigits)) / 10 ^ ndigits)"

subsection \<open>Dynamic values\<close>

text \<open>
  The values a \<open>dict\<close> payload can hold. \<open>PObj\<close> stands for any object the \<open>json\<close>
  module cannot serialise (a \<open>set\<close>, \<open>bytes\<close>, a class instance), named by its type.
  A dict is its list of items in insertion order.
\<close>

datatype pyval =
    PNone
  | PBool bool
  | PInt int
  | PFloat pyfloat
  | PStr string
  | PList "pyval list"
  | PTuple "pyval list"
  | PDict "(pyval \<times> pyval) list"
  | PObj string

text \<open>An f-string that has been evaluated: its template and the values formatted into it.\<close>

type_synonym fstring = "string \<times> pyval list"

section \<open>manipulation\_detector.py\<close>

subsection \<open>Config\<close>

definition POLL_INTERVAL :: pyfloat where "POLL_INTERVAL = fl 2"
definition ALERT_COOLDOWN :: pyfloat where "ALERT_COOLDOWN = fl 15"
definition HISTORY_SIZE :: nat where "HISTORY_SIZE = 60"

definition PRICE_JUMP_THRESHOLD :: pyfloat where "PRICE_JUMP_THRESHOLD = fl (10 / 100)"
definition BTC_MOVE_THRESHOLD_PCT :: pyfloat where "BTC_MOVE_THRESHOLD_PCT = fl (5 / 100)"
definition DEPTH_DROP_PCT :: pyfloat where "DEPTH_DROP_PCT = fl (40 / 100)"
definition DEPTH_DROP_WINDOW :: int where "DEPTH_DROP_WINDOW = 3"
definition DIVERGENCE_THRESHOLD :: pyfloat where "DIVERGENCE_THRESHOLD = fl (15 / 100)"
definition VOLUME_VANISH_THRESHOLD :: pyfloat where "VOLUME_VANISH_THRESHOLD = fl 50"

definition COUNTER_TRADE_SIZE :: pyfloat where "COUNTER_TRADE_SIZE = fl 5"
definition COUNTER_TRADE_EDGE :: pyfloat where "COUNTER_TRADE_EDGE = fl (8 / 100)"

subsection \<open>Data structures\<close>

text \<open>
  \<open>BookSnapshot\<close>. Its timestamp field \<open>ts\<close> is named \<open>snap_ts\<close> here, the name
  \<open>ts\<close> being the field of \<open>Alert\<close>.
\<close>

record book_snapshot =
  snap_ts :: pyfloat
  bid_up :: pyfloat
  ask_up :: pyfloat
  bid_down :: pyfloat
  ask_down :: pyfloat
  depth_up_bids :: pyfloat
  depth_up_asks :: pyfloat
  depth_down_bids :: pyfloat
  depth_down_asks :: pyfloat
  btc_price :: pyfloat

text \<open>A float is truthy when it is not zero; \<open>a or b\<close> is \<open>a\<close> when \<open>a\<close> is truthy.\<close>

definition mid_up :: "book_snapshot \<Rightarrow> pyfloat" where
  "mid_up s =
     (if bid_up s \<noteq> 0 \<and> ask_up s \<noteq> 0 then fl (fadd (bid_up s) (ask_up s) / 2)
      else if bid_up s \<noteq> 0 then bid_up s
      else if ask_up s \<noteq> 0 then ask_up s
      else 0)"

definition mid_down :: "book_snapshot \<Rightarrow> pyfloat" where
  "mid_down s =
     (if bid_down s \<noteq> 0 \<and> ask_down s \<noteq> 0 then fl (fadd (bid_down s) (ask_down s) / 2)
      else if bid_down s \<noteq> 0 then bid_down s
      else if ask_down s \<noteq> 0 then ask_down s
      else 0)"

definition total_depth :: "book_snapshot \<Rightarrow> pyfloat" where
  "total_depth s =
     fadd (fadd (fadd (depth_up_bids s) (depth_up_asks s)) (depth_down_bids s))
       (depth_down_asks s)"

record alert =
  ts :: pyfloat
  alert_type :: string
  severity :: string
  message :: fstring
  data :: "(string \<times> pyval) list"

text \<open>
  \<open>Window\<close> is declared in the module \<open>market\<close>; the detector reads its two token
  identifiers, its slug and its \<open>is_active\<close> flag.
\<close>

record window =
  slug :: string
  token_id_up :: string
  token_id_down :: string
  is_active :: bool

text \<open>What the detector sends to the logger, one entry per call.\<close>

datatype log_record =
    LogAlert alert
  | LogData "(string \<times> pyval) list"
  | LogCounterTrade string pyfloat pyfloat
  | LogOrderPlaced string
  | LogWindow string

subsection \<open>Detector\<close>

text \<open>
  The fields of \<open>ManipulationDetector\<close>, followed by what the detector has written
  outside itself: the lines appended to the alert log file, the logger calls, and the
  orders handed to the client.
\<close>

record manipulation_detector =
  trade_enabled :: bool
  history :: "book_snapshot list"
  alerts :: "alert list"
  last_alert_time :: "string \<rightharpoonup> pyfloat"
  window :: "window option"
  start_price :: "pyfloat option"
  alert_count :: int
  trade_count :: int
  alert_log :: "alert list"
  log_out :: "log_record list"
  orders :: "(string \<times> pyfloat \<times> pyfloat) list"

definition init_detector :: "bool \<Rightarrow> manipulation_detector" where
  "init_detector trade =
     \<lparr> trade_enabled = trade, history = [], alerts = [], last_alert_time = Map.empty,
       window = None, start_price = None, alert_count = 0, trade_count = 0,
       alert_log = [], log_out = [], orders = [] \<rparr>"

text \<open>
  \<open>_can_alert\<close>: \<open>now\<close> is the value \<open>time.time()\<close> returns inside the call.
\<close>

definition can_alert :: "pyfloat \<Rightarrow> manipulation_detector \<Rightarrow> string \<Rightarrow> bool" where
  "can_alert now d atype =
     (let last = (case last_alert_time d atype of Some t \<Rightarrow> t | None \<Rightarrow> 0)
      in ALERT_COOLDOWN \<le> fsub now last)"

text \<open>
  \<open>_fire_alert\<close>: \<open>now\<close> is the clock reading of its \<open>_can_alert\<close> call, and
  \<open>append_ok\<close> tells whether the append to the alert log succeeds (a failure there is
  swallowed by the \<open>except Exception: pass\<close> around it). A line of the log carries the
  five fields of the alert.
\<close>

definition fire_alert ::
    "pyfloat \<Rightarrow> bool \<Rightarrow> alert \<Rightarrow> manipulation_detector \<Rightarrow> manipulation_detector" where
  "fire_alert now append_ok a d =
     (if \<not> can_alert now d (alert_type a) then d
      else
        let d1 = d\<lparr> last_alert_time := (last_alert_time d)(alert_type a \<mapsto> ts a),
                    alert_count := alert_count d + 1,
                    alerts := alerts d @ [a] \<rparr>;
            d2 = d1\<lparr> log_out := log_out d1 @ [LogAlert a] \<rparr>;
            d3 = (if data a \<noteq> [] then d2\<lparr> log_out := log_out d2 @ [LogData (data a)] \<rparr>
                  else d2)
        in if append_ok then d3\<lparr> alert_log := alert_log d3 @ [a] \<rparr> else d3)"

subsection \<open>Indexing and the bounded deque\<close>

text \<open>
  \<open>xs[i]\<close> on a sequence: a negative index counts from the end, and an index outside the
  sequence raises IndexError.
\<close>

definition py_index :: "'a list \<Rightarrow> int \<Rightarrow> error + 'a" where
  "py_index xs i =
     (let len = int (length xs);
          k = (if i < 0 then i + len else i)
      in if k < 0 \<or> len \<le> k then Inl IndexError else Inr (xs ! nat k))"

text \<open>
  \<open>collections.deque(maxlen=n).append(x)\<close>: the item is added on the right and, when
  the deque is then longer than \<open>maxlen\<close>, one item is dropped from the left.
\<close>

definition deque_append :: "nat \<Rightarrow> 'a list \<Rightarrow> 'a \<Rightarrow> 'a list" where
  "deque_append maxlen xs x =
     (let ys = xs @ [x] in if maxlen < length ys then tl ys else ys)"

subsection \<open>What a detector pass reads from outside\<close>

text \<open>
  During one call of \<open>analyze\<close> every alert type is offered to \<open>_fire_alert\<close> at most
  once, so the clock readings and the outcomes of the log appends of the pass are indexed
  by alert type. \<open>place_limit_buy\<close> is the method of the client (module \<open>market\<close>): it
  returns an order id or \<open>None\<close>, or raises.
\<close>

record env =
  time_time :: "string \<Rightarrow> pyfloat"
  append_ok :: "string \<Rightarrow> bool"
  place_limit_buy :: "string \<Rightarrow> pyfloat \<Rightarrow> pyfloat \<Rightarrow> error + string option"

definition fire :: "env \<Rightarrow> alert \<Rightarrow> manipulation_detector \<Rightarrow> manipulation_detector" where
  "fire ev a d = fire_alert (time_time ev (alert_type a)) (append_ok ev (alert_type a)) a d"

text \<open>
  A \<open>for\<close> loop whose body may raise: the first exception ends the loop. When a function
  of this section returns \<open>Inl e\<close>, the exception \<open>e\<close> has left the function; the state
  at that moment is not kept.
\<close>

fun for_each :: "('a \<Rightarrow> 's \<Rightarrow> error + 's) \<Rightarrow> 'a list \<Rightarrow> 's \<Rightarrow> error + 's" where
  "for_each body [] s = Inr s"
| "for_each body (x # xs) s =
     (case body x s of Inl e \<Rightarrow> Inl e | Inr s' \<Rightarrow> for_each body xs s')"

text \<open>The one-character strings U+2191 and U+2193.\<close>

definition arrow_up :: string where "arrow_up = ''U+2191''"
definition arrow_down :: string where "arrow_down = ''U+2193''"

subsection \<open>Counter-trade\<close>

text \<open>
  The last part of both branches of \<open>_counter_trade\<close>, from the check of \<open>buy_price\<close>
  on; \<open>bought\<close> is the label of the token that is bought.
\<close>

definition submit_counter_trade ::
    "env \<Rightarrow> string \<Rightarrow> string \<Rightarrow> pyfloat \<Rightarrow> manipulation_detector
      \<Rightarrow> error + manipulation_detector" where
  "submit_counter_trade ev bought token_id buy_price d =
     (if buy_price \<le> fl (1 / 100) \<or> fl (99 / 100) \<le> buy_price then Inr d
      else
        case fdiv COUNTER_TRADE_SIZE buy_price of
          Inl e \<Rightarrow> Inl e
        | Inr q \<Rightarrow>
            let size = py_round q 1 in
            if size < 1 then Inr d
            else
              let d1 = d\<lparr> log_out := log_out d @ [LogCounterTrade bought buy_price size],
                          orders := orders d @ [(token_id, buy_price, size)] \<rparr>
              in case place_limit_buy ev token_id buy_price size of
                   Inl e \<Rightarrow> Inl e
                 | Inr None \<Rightarrow> Inr d1
                 | Inr (Some order_id) \<Rightarrow>
                     if order_id = [] then Inr d1
                     else Inr (d1\<lparr> trade_count := trade_count d1 + 1,
                                    log_out := log_out d1 @ [LogOrderPlaced order_id] \<rparr>))"

definition counter_trade ::
    "env \<Rightarrow> book_snapshot \<Rightarrow> string \<Rightarrow> pyfloat \<Rightarrow> pyfloat \<Rightarrow> manipulation_detector
      \<Rightarrow> error + manipulation_detector" where
  "counter_trade ev snap token_label mid_now mid_prev d =
     (case window d of
        None \<Rightarrow> Inr d
      | Some w \<Rightarrow>
          if mid_now < mid_prev then
            (if token_label = ''UP'' then
               submit_counter_trade ev token_label (token_id_up w)
                 (py_round (if ask_up snap \<noteq> 0 then ask_up snap
                            else fadd mid_now (fl (1 / 100))) 2) d
             else
               submit_counter_trade ev token_label (token_id_down w)
                 (py_round (if ask_down snap \<noteq> 0 then ask_down snap
                            else fadd mid_now (fl (1 / 100))) 2) d)
          else
            (if token_label = ''UP'' then
               submit_counter_trade ev ''DOWN'' (token_id_down w)
                 (py_round (if ask_down snap \<noteq> 0 then ask_down snap
                            else fadd (mid_down snap) (fl (1 / 100))) 2) d
             else
               submit_counter_trade ev ''UP'' (token_id_up w)
                 (py_round (if ask_up snap \<noteq> 0 then ask_up snap
                            else fadd (mid_up snap) (fl (1 / 100))) 2) d))"

subsection \<open>Price jump\<close>

text \<open>
  \<open>btc_pct\<close> of \<open>_check_price_jump\<close>. The \<open>int\<close> 0 of the \<open>else\<close> branch and the
  float 0.0 are the same number.
\<close>

definition btc_pct_move :: "book_snapshot \<Rightarrow> book_snapshot \<Rightarrow> error + pyfloat" where
  "btc_pct_move snap prev =
     (if btc_price prev \<noteq> 0 then
        (case fdiv (fabs (fsub (btc_price snap) (btc_price prev))) (btc_price prev) of
           Inl e \<Rightarrow> Inl e
         | Inr q \<Rightarrow> Inr (fmul q 100))
      else Inr 0)"

definition price_jump_severity :: "pyfloat \<Rightarrow> string" where
  "price_jump_severity delta =
     (if fl (20 / 100) \<le> delta then ''CRITICAL''
      else if fl (15 / 100) \<le> delta then ''HIGH''
      else ''MEDIUM'')"

text \<open>The \<open>Alert\<close> built in the loop of \<open>_check_price_jump\<close>.\<close>

definition price_jump_alert ::
    "book_snapshot \<Rightarrow> pyfloat \<Rightarrow> string \<Rightarrow> pyfloat \<Rightarrow> pyfloat \<Rightarrow> alert" where
  "price_jump_alert snap btc_pct label mid_now mid_prev =
     (let delta = fabs (fsub mid_now mid_prev);
          direction = (if mid_prev < mid_now then arrow_up else arrow_down)
      in \<lparr> ts = snap_ts snap,
           alert_type = ''PRICE_JUMP_'' @ label,
           severity = price_jump_severity delta,
           message =
             (''{label} mid {direction} ${mid_prev:.3f} -> ${mid_now:.3f} (delta={delta:.3f}) but BTC only moved {btc_pct:.4f}%'',
              [PStr label, PStr direction, PFloat mid_prev, PFloat mid_now, PFloat delta,
               PFloat btc_pct]),
           data =
             [(''token'', PStr label), (''mid_prev'', PFloat mid_prev),
              (''mid_now'', PFloat mid_now), (''delta'', PFloat delta),
              (''btc_pct_move'', PFloat btc_pct), (''btc'', PFloat (btc_price snap)),
              (''direction'', PStr direction)] \<rparr>)"

text \<open>
  The candidate of one instrument: the two guards of the loop body, and the alert handed
  to \<open>_fire_alert\<close> when both pass.
\<close>

definition price_jump_candidate ::
    "book_snapshot \<Rightarrow> pyfloat \<Rightarrow> string \<Rightarrow> pyfloat \<Rightarrow> pyfloat \<Rightarrow> alert option" where
  "price_jump_candidate snap btc_pct label mid_now mid_prev =
     (if mid_now = 0 \<or> mid_prev = 0 then None
      else
        let delta = fabs (fsub mid_now mid_prev)
        in if PRICE_JUMP_THRESHOLD \<le> delta \<and> btc_pct < BTC_MOVE_THRESHOLD_PCT
           then Some (price_jump_alert snap btc_pct label mid_now mid_prev)
           else None)"

definition price_jump_step ::
    "env \<Rightarrow> book_snapshot \<Rightarrow> pyfloat \<Rightarrow> string \<times> pyfloat \<times> pyfloat
      \<Rightarrow> manipulation_detector \<Rightarrow> error + manipulation_detector" where
  "price_jump_step ev snap btc_pct item d =
     (case item of (label, mid_now, mid_prev) \<Rightarrow>
        (case price_jump_candidate snap btc_pct label mid_now mid_prev of
           None \<Rightarrow> Inr d
         | Some a \<Rightarrow>
             let d1 = fire ev a d
             in if trade_enabled d1 \<and> COUNTER_TRADE_EDGE \<le> fabs (fsub mid_now mid_prev)
                then counter_trade ev snap label mid_now mid_prev d1
                else Inr d1))"

definition price_jump_items ::
    "book_snapshot \<Rightarrow> book_snapshot \<Rightarrow> (string \<times> pyfloat \<times> pyfloat) list" where
  "price_jump_items snap prev =
     [(''UP'', mid_up snap, mid_up prev), (''DOWN'', mid_down snap, mid_down prev)]"

definition check_price_jump ::
    "env \<Rightarrow> book_snapshot \<Rightarrow> book_snapshot \<Rightarrow> manipulation_detector
      \<Rightarrow> error + manipulation_detector" where
  "check_price_jump ev snap prev d =
     (case btc_pct_move snap prev of
        Inl e \<Rightarrow> Inl e
      | Inr btc_pct \<Rightarrow> for_each (price_jump_step ev snap btc_pct) (price_jump_items snap prev) d)"

text \<open>The candidates of one pass of the price-jump detector, in the order of the loop.\<close>

definition price_jump_candidates :: "book_snapshot \<Rightarrow> book_snapshot \<Rightarrow> error + alert list" where
  "price_jump_candidates snap prev =
     (case btc_pct_move snap prev of
        Inl e \<Rightarrow> Inl e
      | Inr btc_pct \<Rightarrow>
          Inr (List.map_filter
                 (\<lambda>item. case item of (label, mid_now, mid_prev) \<Rightarrow>
                    price_jump_candidate snap btc_pct label mid_now mid_prev)
                 (price_jump_items snap prev)))"

subsection \<open>Depth drop\<close>

definition depth_drop_severity :: "pyfloat \<Rightarrow> string" where
  "depth_drop_severity drop_pct =
     (if fl (70 / 100) \<le> drop_pct then ''CRITICAL''
      else if fl (55 / 100) \<le> drop_pct then ''HIGH''
      else ''MEDIUM'')"

definition depth_drop_alert :: "book_snapshot \<Rightarrow> book_snapshot \<Rightarrow> pyfloat \<Rightarrow> alert" where
  "depth_drop_alert snap ref drop_pct =
     \<lparr> ts = snap_ts snap,
       alert_type = ''DEPTH_DROP'',
       severity = depth_drop_severity drop_pct,
       message =
         (''Orderbook depth dropped {drop_pct:.0%}: {ref.total_depth:.0f} -> {snap.total_depth:.0f} shares (over {DEPTH_DROP_WINDOW * POLL_INTERVAL:.0f}s)'',
          [PFloat drop_pct, PFloat (total_depth ref), PFloat (total_depth snap),
           PFloat (fmul (of_int DEPTH_DROP_WINDOW) POLL_INTERVAL)]),
       data =
         [(''depth_before'', PFloat (total_depth ref)),
          (''depth_after'', PFloat (total_depth snap)),
          (''drop_pct'', PFloat drop_pct)] \<rparr>"

definition check_depth_drop ::
    "env \<Rightarrow> book_snapshot \<Rightarrow> manipulation_detector \<Rightarrow> error + manipulation_detector" where
  "check_depth_drop ev snap d =
     (if int (length (history d)) < DEPTH_DROP_WINDOW then Inr d
      else
        case py_index (history d) (- DEPTH_DROP_WINDOW) of
          Inl e \<Rightarrow> Inl e
        | Inr ref \<Rightarrow>
            if total_depth ref < 1 then Inr d
            else
              case fdiv (fsub (total_depth ref) (total_depth snap)) (total_depth ref) of
                Inl e \<Rightarrow> Inl e
              | Inr drop_pct \<Rightarrow>
                  if DEPTH_DROP_PCT \<le> drop_pct
                  then Inr (fire ev (depth_drop_alert snap ref drop_pct) d)
                  else Inr d)"

subsection \<open>Volume vanish\<close>

definition volume_vanish_alert ::
    "book_snapshot \<Rightarrow> string \<Rightarrow> pyfloat \<Rightarrow> pyfloat \<Rightarrow> alert" where
  "volume_vanish_alert snap label now_v prev_v =
     (let vanished = fsub prev_v now_v
      in \<lparr> ts = snap_ts snap,
           alert_type = ''VOLUME_VANISH_'' @ label,
           severity = (if 100 \<le> vanished then ''HIGH'' else ''MEDIUM''),
           message =
             (''{label}: {vanished:.0f} shares vanished ({prev_v:.0f} -> {now_v:.0f})'',
              [PStr label, PFloat vanished, PFloat prev_v, PFloat now_v]),
           data =
             [(''side'', PStr label), (''before'', PFloat prev_v), (''after'', PFloat now_v),
              (''vanished'', PFloat vanished)] \<rparr>)"

definition volume_vanish_step ::
    "env \<Rightarrow> book_snapshot \<Rightarrow> string \<times> pyfloat \<times> pyfloat
      \<Rightarrow> manipulation_detector \<Rightarrow> error + manipulation_detector" where
  "volume_vanish_step ev snap item d =
     (case item of (label, now_v, prev_v) \<Rightarrow>
        if VOLUME_VANISH_THRESHOLD \<le> fsub prev_v now_v
        then Inr (fire ev (volume_vanish_alert snap label now_v prev_v) d)
        else Inr d)"

definition check_volume_vanish ::
    "env \<Rightarrow> book_snapshot \<Rightarrow> book_snapshot \<Rightarrow> manipulation_detector
      \<Rightarrow> error + manipulation_detector" where
  "check_volume_vanish ev snap prev d =
     for_each (volume_vanish_step ev snap)
       [(''UP_BIDS'', depth_up_bids snap, depth_up_bids prev),
        (''UP_ASKS'', depth_up_asks snap, depth_up_asks prev),
        (''DOWN_BIDS'', depth_down_bids snap, depth_down_bids prev),
        (''DOWN_ASKS'', depth_down_asks snap, depth_down_asks prev)] d"

subsection \<open>Divergence\<close>

definition divergence_up_alert :: "book_snapshot \<Rightarrow> pyfloat \<Rightarrow> alert" where
  "divergence_up_alert snap btc_delta_pct =
     \<lparr> ts = snap_ts snap,
       alert_type = ''DIVERGENCE_UP_CHEAP'',
       severity = ''HIGH'',
       message =
         (''BTC up {btc_delta_pct:+.4f}% but UP mid only ${snap.mid_up:.3f} - UP token underpriced vs BTC reality'',
          [PFloat btc_delta_pct, PFloat (mid_up snap)]),
       data =
         [(''btc_delta_pct'', PFloat btc_delta_pct), (''mid_up'', PFloat (mid_up snap)),
          (''btc'', PFloat (btc_price snap))] \<rparr>"

definition divergence_down_alert :: "book_snapshot \<Rightarrow> pyfloat \<Rightarrow> alert" where
  "divergence_down_alert snap btc_delta_pct =
     \<lparr> ts = snap_ts snap,
       alert_type = ''DIVERGENCE_DOWN_CHEAP'',
       severity = ''HIGH'',
       message =
         (''BTC down {btc_delta_pct:+.4f}% but DOWN mid only ${snap.mid_down:.3f} - DOWN token underpriced vs BTC reality'',
          [PFloat btc_delta_pct, PFloat (mid_down snap)]),
       data =
         [(''btc_delta_pct'', PFloat btc_delta_pct), (''mid_down'', PFloat (mid_down snap)),
          (''btc'', PFloat (btc_price snap))] \<rparr>"

text \<open>
  \<open>not self.start_price\<close> holds when the start price is \<open>None\<close> or zero.
\<close>

definition check_divergence ::
    "env \<Rightarrow> book_snapshot \<Rightarrow> manipulation_detector \<Rightarrow> error + manipulation_detector" where
  "check_divergence ev snap d =
     (case start_price d of
        None \<Rightarrow> Inr d
      | Some s0 \<Rightarrow>
          if s0 = 0 \<or> btc_price snap = 0 then Inr d
          else
            case fdiv (fsub (btc_price snap) s0) s0 of
              Inl e \<Rightarrow> Inl e
            | Inr q \<Rightarrow>
                let btc_delta_pct = fmul q 100;
                    cheap = fsub (fl (50 / 100)) DIVERGENCE_THRESHOLD
                in if fl (3 / 100) < btc_delta_pct \<and> mid_up snap \<noteq> 0 \<and> mid_up snap < cheap
                   then Inr (fire ev (divergence_up_alert snap btc_delta_pct) d)
                   else if btc_delta_pct < - fl (3 / 100) \<and> mid_down snap \<noteq> 0
                           \<and> mid_down snap < cheap
                   then Inr (fire ev (divergence_down_alert snap btc_delta_pct) d)
                   else Inr d)"

subsection \<open>Spread blow-out\<close>

definition spread_alert ::
    "book_snapshot \<Rightarrow> string \<Rightarrow> pyfloat \<Rightarrow> pyfloat \<Rightarrow> pyfloat \<Rightarrow> alert" where
  "spread_alert snap label spread_prev spread_now spread_expansion =
     \<lparr> ts = snap_ts snap,
       alert_type = ''SPREAD_BLOWOUT_'' @ label,
       severity = (if 5 \<le> spread_expansion then ''HIGH'' else ''MEDIUM''),
       message =
         (''{label} spread {spread_expansion:.1f}x wider: ${spread_prev:.3f} -> ${spread_now:.3f}'',
          [PStr label, PFloat spread_expansion, PFloat spread_prev, PFloat spread_now]),
       data =
         [(''token'', PStr label), (''spread_prev'', PFloat spread_prev),
          (''spread_now'', PFloat spread_now), (''expansion'', PFloat spread_expansion)] \<rparr>"

definition spread_step ::
    "env \<Rightarrow> book_snapshot \<Rightarrow> string \<times> pyfloat \<times> pyfloat \<times> pyfloat \<times> pyfloat
      \<Rightarrow> manipulation_detector \<Rightarrow> error + manipulation_detector" where
  "spread_step ev snap item d =
     (case item of (label, bid, ask, prev_bid, prev_ask) \<Rightarrow>
        if \<not> (bid \<noteq> 0 \<and> ask \<noteq> 0 \<and> prev_bid \<noteq> 0 \<and> prev_ask \<noteq> 0) then Inr d
        else
          let spread_now = fsub ask bid;
              spread_prev = fsub prev_ask prev_bid
          in if 0 < spread_prev then
               (case fdiv spread_now spread_prev of
                  Inl e \<Rightarrow> Inl e
                | Inr spread_expansion \<Rightarrow>
                    if 3 \<le> spread_expansion \<and> fl (10 / 100) \<le> spread_now
                    then Inr (fire ev (spread_alert snap label spread_prev spread_now
                                         spread_expansion) d)
                    else Inr d)
             else Inr d)"

definition check_spread ::
    "env \<Rightarrow> book_snapshot \<Rightarrow> book_snapshot \<Rightarrow> manipulation_detector
      \<Rightarrow> error + manipulation_detector" where
  "check_spread ev snap prev d =
     for_each (spread_step ev snap)
       [(''UP'', bid_up snap, ask_up snap, bid_up prev, ask_up prev),
        (''DOWN'', bid_down snap, ask_down snap, bid_down prev, ask_down prev)] d"

subsection \<open>The detector pass\<close>

definition analyze ::
    "env \<Rightarrow> book_snapshot \<Rightarrow> manipulation_detector \<Rightarrow> error + manipulation_detector" where
  "analyze ev snap d =
     (if length (history d) < 2 then Inr d
      else
        case py_index (history d) (- 1) of
          Inl e \<Rightarrow> Inl e
        | Inr prev \<Rightarrow>
            (case check_price_jump ev snap prev d of
               Inl e \<Rightarrow> Inl e
             | Inr d1 \<Rightarrow>
                 (case check_depth_drop ev snap d1 of
                    Inl e \<Rightarrow> Inl e
                  | Inr d2 \<Rightarrow>
                      (case check_volume_vanish ev snap prev d2 of
                         Inl e \<Rightarrow> Inl e
                       | Inr d3 \<Rightarrow>
                           (case check_divergence ev snap d3 of
                              Inl e \<Rightarrow> Inl e
                            | Inr d4 \<Rightarrow> check_spread ev snap prev d4)))))"

subsection \<open>Main loop\<close>

text \<open>
  One iteration of the \<open>while True\<close> loop of \<open>run\<close>. The local variable \<open>window\<close> is
  \<open>cur_window\<close>. What the iteration reads from its collaborators is its input: the value
  of \<open>window.is_expired\<close>, the result of \<open>client.fetch_window\<close>, the price
  \<open>feed.get_price()\<close> returns, and the snapshot \<open>_get_full_book\<close> returns. The sleeps
  and the periodic status lines change neither the detector nor the window and are left
  out.
\<close>

record loop_state =
  cur_window :: "window option"
  detector :: manipulation_detector

record tick_input =
  is_expired :: bool
  fetch_window :: "window option"
  get_price :: "pyfloat option"
  get_full_book :: "book_snapshot option"

text \<open>
  How a part of the loop body ends: it falls through to the next statement, it reaches
  \<open>continue\<close>, or an exception leaves the loop.
\<close>

datatype flow = Fall | Continue | Raise error

text \<open>
  The \<open>if window is None or window.is_expired\<close> block. Formatting the price with
  \<open>{btc:.2f}\<close> raises TypeError when the feed has no price.
\<close>

definition refresh_window :: "tick_input \<Rightarrow> loop_state \<Rightarrow> loop_state \<times> flow" where
  "refresh_window inp ls =
     (if cur_window ls = None \<or> is_expired inp then
        (case fetch_window inp of
           None \<Rightarrow> (ls, Continue)
         | Some w \<Rightarrow>
             if is_active w then
               let det = (detector ls)\<lparr> window := Some w, start_price := get_price inp,
                                        history := [] \<rparr>;
                   ls1 = ls\<lparr> cur_window := Some w, detector := det \<rparr>
               in (case get_price inp of
                     None \<Rightarrow> (ls1, Raise TypeError)
                   | Some btc \<Rightarrow>
                       (ls1\<lparr> detector := det\<lparr> log_out := log_out det @ [LogWindow (slug w)] \<rparr> \<rparr>,
                        Fall))
             else (ls, Continue))
      else (ls, Fall))"

text \<open>
  The rest of the body: poll the order book, analyse, append to the history. When
  \<open>analyze\<close> raises, the loop state is reported as it was before the call.
\<close>

definition poll :: "env \<Rightarrow> tick_input \<Rightarrow> loop_state \<Rightarrow> loop_state \<times> flow" where
  "poll ev inp ls =
     (case get_full_book inp of
        None \<Rightarrow> (ls, Continue)
      | Some snap \<Rightarrow>
          (case analyze ev snap (detector ls) of
             Inl e \<Rightarrow> (ls, Raise e)
           | Inr det \<Rightarrow>
               (ls\<lparr> detector := det\<lparr> history := deque_append HISTORY_SIZE (history det) snap \<rparr> \<rparr>,
                Continue)))"

definition loop_iteration :: "env \<Rightarrow> tick_input \<Rightarrow> loop_state \<Rightarrow> loop_state \<times> flow" where
  "loop_iteration ev inp ls =
     (case refresh_window inp ls of
        (ls1, Fall) \<Rightarrow> poll ev inp ls1
      | (ls1, Continue) \<Rightarrow> (ls1, Continue)
      | (ls1, Raise e) \<Rightarrow> (ls1, Raise e))"

section \<open>signal.py\<close>

subsection \<open>The json module\<close>

text \<open>
  A JSON document, as \<open>json.dumps\<close> writes it and \<open>json.loads\<close> reads it. The text
  of a document is not modelled: a line of a JSONL file is the document it holds. A
  number token written for a float is the \<open>repr\<close> of that float, which reads back as
  the same float.
\<close>

datatype json =
    JNull
  | JBool bool
  | JInt int
  | JFloat pyfloat
  | JString string
  | JArray "json list"
  | JObject "(string \<times> json) list"

definition digit_char :: "nat \<Rightarrow> char" where
  "digit_char n = char_of (48 + n)"

function nat_digits :: "nat \<Rightarrow> string" where
  "nat_digits n =
     (if n < 10 then [digit_char n] else nat_digits (n div 10) @ [digit_char (n mod 10)])"
  by pat_completeness auto
termination
  by (relation "measure (\<lambda>n. n)") auto

definition int_str :: "int \<Rightarrow> string" where
  "int_str i = (if i < 0 then CHR ''-'' # nat_digits (nat (- i)) else nat_digits (nat i))"

text \<open>
  The key of a dict item, as \<open>json.dumps\<close> writes it: a \<open>str\<close> is kept, \<open>bool\<close>,
  \<open>None\<close>, \<open>int\<close> and \<open>float\<close> keys are turned into strings, any other key raises
  TypeError. \<open>float_repr\<close> is \<open>float.__repr__\<close>.
\<close>

definition json_key :: "(pyfloat \<Rightarrow> string) \<Rightarrow> pyval \<Rightarrow> error + string" where
  "json_key float_repr k =
     (case k of
        PStr s \<Rightarrow> Inr s
      | PBool b \<Rightarrow> Inr (if b then ''true'' else ''false'')
      | PNone \<Rightarrow> Inr ''null''
      | PInt i \<Rightarrow> Inr (int_str i)
      | PFloat f \<Rightarrow> Inr (float_repr f)
      | _ \<Rightarrow> Inl TypeError)"

text \<open>
  \<open>json.dumps\<close>: lists and tuples both become arrays, a dict becomes an object, and a
  value of any other type raises TypeError.
\<close>

fun json_dumps :: "(pyfloat \<Rightarrow> string) \<Rightarrow> pyval \<Rightarrow> error + json"
  and json_dumps_list :: "(pyfloat \<Rightarrow> string) \<Rightarrow> pyval list \<Rightarrow> error + json list"
  and json_dumps_items ::
    "(pyfloat \<Rightarrow> string) \<Rightarrow> (pyval \<times> pyval) list \<Rightarrow> error + (string \<times> json) list"
where
  "json_dumps fr PNone = Inr JNull"
| "json_dumps fr (PBool b) = Inr (JBool b)"
| "json_dumps fr (PInt i) = Inr (JInt i)"
| "json_dumps fr (PFloat f) = Inr (JFloat f)"
| "json_dumps fr (PStr s) = Inr (JString s)"
| "json_dumps fr (PList xs) =
     (case json_dumps_list fr xs of Inl e \<Rightarrow> Inl e | Inr js \<Rightarrow> Inr (JArray js))"
| "json_dumps fr (PTuple xs) =
     (case json_dumps_list fr xs of Inl e \<Rightarrow> Inl e | Inr js \<Rightarrow> Inr (JArray js))"
| "json_dumps fr (PDict items) =
     (case json_dumps_items fr items of Inl e \<Rightarrow> Inl e | Inr kvs \<Rightarrow> Inr (JObject kvs))"
| "json_dumps fr (PObj tname) = Inl TypeError"
| "json_dumps_list fr [] = Inr []"
| "json_dumps_list fr (x # xs) =
     (case json_dumps fr x of
        Inl e \<Rightarrow> Inl e
      | Inr j \<Rightarrow> (case json_dumps_list fr xs of Inl e \<Rightarrow> Inl e | Inr js \<Rightarrow> Inr (j # js)))"
| "json_dumps_items fr [] = Inr []"
| "json_dumps_items fr (kv # rest) =
     (case json_key fr (fst kv) of
        Inl e \<Rightarrow> Inl e
      | Inr k \<Rightarrow>
          (case json_dumps fr (snd kv) of
             Inl e \<Rightarrow> Inl e
           | Inr j \<Rightarrow>
               (case json_dumps_items fr rest of
                  Inl e \<Rightarrow> Inl e
                | Inr kvs \<Rightarrow> Inr ((k, j) # kvs))))"

text \<open>\<open>d[k] = v\<close> on the items of a dict: an existing key keeps its place.\<close>

fun dict_set :: "pyval \<Rightarrow> pyval \<Rightarrow> (pyval \<times> pyval) list \<Rightarrow> (pyval \<times> pyval) list" where
  "dict_set k v [] = [(k, v)]"
| "dict_set k v (kv # rest) =
     (if fst kv = k then (k, v) # rest else kv # dict_set k v rest)"

definition dict_of_items :: "(pyval \<times> pyval) list \<Rightarrow> (pyval \<times> pyval) list" where
  "dict_of_items items = foldl (\<lambda>d kv. dict_set (fst kv) (snd kv) d) [] items"

text \<open>
  \<open>json.loads\<close>: an array is read as a list, an object as a dict with \<open>str\<close> keys in
  which a repeated key keeps its last value.
\<close>

fun json_loads :: "json \<Rightarrow> pyval"
  and json_loads_list :: "json list \<Rightarrow> pyval list"
  and json_loads_items :: "(string \<times> json) list \<Rightarrow> (pyval \<times> pyval) list"
where
  "json_loads JNull = PNone"
| "json_loads (JBool b) = PBool b"
| "json_loads (JInt i) = PInt i"
| "json_loads (JFloat f) = PFloat f"
| "json_loads (JString s) = PStr s"
| "json_loads (JArray js) = PList (json_loads_list js)"
| "json_loads (JObject kvs) = PDict (dict_of_items (json_loads_items kvs))"
| "json_loads_list [] = []"
| "json_loads_list (j # js) = json_loads j # json_loads_list js"
| "json_loads_items [] = []"
| "json_loads_items (kv # rest) = (PStr (fst kv), json_loads (snd kv)) # json_loads_items rest"

text \<open>\<open>d.get(key)\<close> for a \<open>str\<close> key.\<close>

definition dict_get :: "pyval \<Rightarrow> string \<Rightarrow> pyval option" where
  "dict_get d key = (case d of PDict items \<Rightarrow> map_of items (PStr key) | _ \<Rightarrow> None)"

text \<open>
  The values that JSON has a type of its own for: no tuple, no object of another type,
  and dicts with distinct \<open>str\<close> keys.
\<close>

fun json_native :: "pyval \<Rightarrow> bool"
  and json_native_list :: "pyval list \<Rightarrow> bool"
  and json_native_items :: "(pyval \<times> pyval) list \<Rightarrow> bool"
where
  "json_native PNone = True"
| "json_native (PBool b) = True"
| "json_native (PInt i) = True"
| "json_native (PFloat f) = True"
| "json_native (PStr s) = True"
| "json_native (PList xs) = json_native_list xs"
| "json_native (PTuple xs) = False"
| "json_native (PDict items) = (json_native_items items \<and> distinct (map fst items))"
| "json_native (PObj tname) = False"
| "json_native_list [] = True"
| "json_native_list (x # xs) = (json_native x \<and> json_native_list xs)"
| "json_native_items [] = True"
| "json_native_items (kv # rest) =
     ((case fst kv of PStr s \<Rightarrow> True | _ \<Rightarrow> False) \<and> json_native (snd kv)
      \<and> json_native_items rest)"

subsection \<open>Alerts\<close>

definition ALERT_VERSION :: int where "ALERT_VERSION = 1"

text \<open>\<open>now_iso\<close> is \<open>datetime.now(timezone.utc).isoformat()\<close>.\<close>

definition make_alert ::
    "string \<Rightarrow> string \<Rightarrow> string \<Rightarrow> string \<Rightarrow> (pyval \<times> pyval) list \<Rightarrow> pyval" where
  "make_alert now_iso code sev source payload =
     PDict [(PStr ''version'', PInt ALERT_VERSION),
            (PStr ''timestamp'', PStr now_iso),
            (PStr ''code'', PStr code),
            (PStr ''severity'', PStr sev),
            (PStr ''source'', PStr source),
            (PStr ''data'', PDict payload)]"

subsection \<open>AlertBus\<close>

text \<open>
  The fields of \<open>AlertBus\<close> (\<open>file\<close> is named \<open>file_enabled\<close>); subscribers and
  socket clients are named by numbers.
  \<open>file_lines\<close> is what the bus has appended to the file at \<open>file_path\<close>.
\<close>

record alert_bus =
  file_enabled :: bool
  file_path :: string
  socket_enabled :: bool
  socket_path :: string
  webhook_url :: "string option"
  stdout :: bool
  subscribers :: "nat list"
  socket_clients :: "nat list"
  file_lines :: "json list"

text \<open>
  What one call of \<open>emit\<close> meets outside the bus: the clock, \<open>float.__repr__\<close>, and for
  each input/output operation whether it raises (an exception of class \<open>Exception\<close>). A
  callback is opaque: it returns or it raises.
\<close>

record bus_env =
  now_iso :: string
  float_repr :: "pyfloat \<Rightarrow> string"
  write_fails :: bool
  print_fails :: bool
  callback_raises :: "nat \<Rightarrow> bool"
  sendall_fails :: "nat \<Rightarrow> bool"
  post_fails :: bool

text \<open>
  What \<open>emit\<close> does, in order: taking and releasing \<open>self._lock\<close>, and each delivery
  attempt with its success; \<open>LogError\<close> is a call of \<open>logger.error\<close> in a handler.
\<close>

datatype event =
    Acquire
  | Release
  | FileAppend bool
  | Print bool
  | Callback nat bool
  | SendAll nat bool
  | Post bool
  | LogError string

definition file_output :: "bus_env \<Rightarrow> pyval \<Rightarrow> alert_bus \<Rightarrow> alert_bus \<times> event list" where
  "file_output ev alert b =
     (if file_enabled b then
        (case json_dumps (float_repr ev) alert of
           Inl e \<Rightarrow> (b, [FileAppend False, LogError ''Failed to write alert to file''])
         | Inr line \<Rightarrow>
             if write_fails ev
             then (b, [FileAppend False, LogError ''Failed to write alert to file''])
             else (b\<lparr> file_lines := file_lines b @ [line] \<rparr>, [FileAppend True]))
      else (b, []))"

definition stdout_output :: "bus_env \<Rightarrow> pyval \<Rightarrow> alert_bus \<Rightarrow> event list \<times> error option" where
  "stdout_output ev alert b =
     (if stdout b then
        (case json_dumps (float_repr ev) alert of
           Inl e \<Rightarrow> ([], Some e)
         | Inr line \<Rightarrow>
             if print_fails ev then ([Print False], Some OSError) else ([Print True], None))
      else ([], None))"

definition notify_subscribers :: "bus_env \<Rightarrow> alert_bus \<Rightarrow> event list" where
  "notify_subscribers ev b =
     [Acquire]
     @ concat (map (\<lambda>cb. if callback_raises ev cb
                          then [Callback cb False, LogError ''Subscriber error'']
                          else [Callback cb True])
                 (subscribers b))
     @ [Release]"

text \<open>\<open>xs.remove(x)\<close> removes the first \<open>x\<close> and raises ValueError when there is none.\<close>

definition py_remove :: "'a \<Rightarrow> 'a list \<Rightarrow> error + 'a list" where
  "py_remove x xs = (if x \<in> set xs then Inr (remove1 x xs) else Inl ValueError)"

text \<open>
  \<open>_broadcast_socket\<close>. The lock is released when an exception leaves the \<open>with\<close>
  block.
\<close>

definition broadcast_socket ::
    "bus_env \<Rightarrow> pyval \<Rightarrow> alert_bus \<Rightarrow> alert_bus \<times> event list \<times> error option" where
  "broadcast_socket ev alert b =
     (if socket_clients b = [] then (b, [], None)
      else
        case json_dumps (float_repr ev) alert of
          Inl e \<Rightarrow> (b, [], Some e)
        | Inr msg \<Rightarrow>
            let dead = filter (sendall_fails ev) (socket_clients b);
                sends = map (\<lambda>c. SendAll c (\<not> sendall_fails ev c)) (socket_clients b)
            in case for_each py_remove dead (socket_clients b) of
                 Inl e \<Rightarrow> (b, [Acquire] @ sends @ [Release], Some e)
               | Inr remaining \<Rightarrow>
                   (b\<lparr> socket_clients := remaining \<rparr>, [Acquire] @ sends @ [Release], None))"

text \<open>
  \<open>_send_webhook\<close>: \<open>requests.post\<close> serialises the alert itself, inside the \<open>try\<close>.
\<close>

definition send_webhook :: "bus_env \<Rightarrow> pyval \<Rightarrow> event list" where
  "send_webhook ev alert =
     (case json_dumps (float_repr ev) alert of
        Inl e \<Rightarrow> [Post False, LogError ''Webhook error'']
      | Inr body \<Rightarrow>
          if post_fails ev then [Post False, LogError ''Webhook error''] else [Post True])"

text \<open>
  \<open>AlertBus.emit\<close> returns the bus as the call leaves it, what the call did, and either
  the alert it returns or the exception that leaves it. \<open>if self.webhook_url\<close> holds for
  a non-empty string.
\<close>

definition emit ::
    "bus_env \<Rightarrow> alert_bus \<Rightarrow> string \<Rightarrow> string \<Rightarrow> string \<Rightarrow> (pyval \<times> pyval) list
      \<Rightarrow> alert_bus \<times> event list \<times> (error + pyval)" where
  "emit ev b code sev source payload =
     (let alert = make_alert (now_iso ev) code sev source payload;
          (b1, es1) = file_output ev alert b
      in case stdout_output ev alert b1 of
           (es2, Some e) \<Rightarrow> (b1, es1 @ es2, Inl e)
         | (es2, None) \<Rightarrow>
             let es3 = notify_subscribers ev b1
             in case broadcast_socket ev alert b1 of
                  (b4, es4, Some e) \<Rightarrow> (b4, es1 @ es2 @ es3 @ es4, Inl e)
                | (b4, es4, None) \<Rightarrow>
                    let es5 = (case webhook_url b4 of
                                 None \<Rightarrow> []
                               | Some url \<Rightarrow> if url = [] then [] else send_webhook ev alert)
                    in (b4, es1 @ es2 @ es3 @ es4 @ es5, Inr alert))"

subsection \<open>Where the lock is held\<close>

text \<open>Whether the lock is held after a run of events, given whether it was held before.\<close>

fun lock_held :: "bool \<Rightarrow> event list \<Rightarrow> bool" where
  "lock_held h [] = h"
| "lock_held h (Acquire # es) = lock_held True es"
| "lock_held h (Release # es) = lock_held False es"
| "lock_held h (e # es) = lock_held h es"

text \<open>The events that happen while the lock is held, and those that happen while it is free.\<close>

fun under_lock :: "bool \<Rightarrow> event list \<Rightarrow> event list" where
  "under_lock h [] = []"
| "under_lock h (Acquire # es) = under_lock True es"
| "under_lock h (Release # es) = under_lock False es"
| "under_lock h (e # es) = (if h then e # under_lock h es else under_lock h es)"

fun outside_lock :: "bool \<Rightarrow> event list \<Rightarrow> event list" where
  "outside_lock h [] = []"
| "outside_lock h (Acquire # es) = outside_lock True es"
| "outside_lock h (Release # es) = outside_lock False es"
| "outside_lock h (e # es) = (if h then outside_lock h es else e # outside_lock h es)"

definition is_send :: "event \<Rightarrow> bool" where
  "is_send e = (case e of SendAll c ok \<Rightarrow> True | _ \<Rightarrow> False)"

definition is_post :: "event \<Rightarrow> bool" where
  "is_post e = (case e of Post ok \<Rightarrow> True | _ \<Rightarrow> False)"

definition is_callback :: "event \<Rightarrow> bool" where
  "is_callback e = (case e of Callback c ok \<Rightarrow> True | _ \<Rightarrow> False)"

section \<open>Concrete inputs\<close>

text \<open>A depth-drop alert stamped \<open>t\<close>, and a detector that has fired one at time 1000.\<close>

definition ex_alert :: "pyfloat \<Rightarrow> alert" where
  "ex_alert t =
     \<lparr> ts = t, alert_type = ''DEPTH_DROP'', severity = ''MEDIUM'',
       message = (''Orderbook depth dropped'', []), data = [] \<rparr>"

definition ex_fired_detector :: manipulation_detector where
  "ex_fired_detector = fire_alert 1000 True (ex_alert 1000) (init_detector False)"

text \<open>A snapshot of an empty book taken at time \<open>t\<close>, with a zero reference price.\<close>

definition zero_snapshot :: "pyfloat \<Rightarrow> book_snapshot" where
  "zero_snapshot t =
     \<lparr> snap_ts = t, bid_up = 0, ask_up = 0, bid_down = 0, ask_down = 0,
       depth_up_bids = 0, depth_up_asks = 0, depth_down_bids = 0, depth_down_asks = 0,
       btc_price = 0 \<rparr>"

definition ex_window :: "string \<Rightarrow> window" where
  "ex_window name =
     \<lparr> slug = name, token_id_up = name @ ''-up'', token_id_down = name @ ''-down'',
       is_active = True \<rparr>"

text \<open>A pass at clock reading 1000 whose log appends succeed and whose client takes no order.\<close>

definition ex_env :: env where
  "ex_env = \<lparr> time_time = (\<lambda>atype. 1000), append_ok = (\<lambda>atype. True),
              place_limit_buy = (\<lambda>token price size. Inr None) \<rparr>"

text \<open>
  A loop that holds three snapshots of the window \<open>epoch-1\<close>, and an iteration that finds
  this window expired and fetches the active window \<open>epoch-2\<close>.
\<close>

definition ex_loop_state :: loop_state where
  "ex_loop_state =
     \<lparr> cur_window = Some (ex_window ''epoch-1''),
       detector = (init_detector False)
         \<lparr> history := [zero_snapshot 1, zero_snapshot 3, zero_snapshot 5],
           window := Some (ex_window ''epoch-1'') \<rparr> \<rparr>"

definition ex_rollover :: tick_input where
  "ex_rollover =
     \<lparr> is_expired = True, fetch_window = Some (ex_window ''epoch-2''),
       get_price = Some 50000, get_full_book = Some (zero_snapshot 7) \<rparr>"

text \<open>\<open>alert.data.get(key)\<close>.\<close>

definition evidence :: "alert \<Rightarrow> string \<Rightarrow> pyval option" where
  "evidence a key = map_of (data a) key"

text \<open>
  Two consecutive snapshots: the UP instrument is quoted at 0.40 and then at 0.55, the
  DOWN instrument has no quote, and the reference price stays at 50000.
\<close>

definition ex_jump_prev :: book_snapshot where
  "ex_jump_prev =
     (zero_snapshot 100)\<lparr> bid_up := fl (40 / 100), ask_up := fl (40 / 100),
                           btc_price := 50000 \<rparr>"

definition ex_jump_now :: book_snapshot where
  "ex_jump_now =
     (zero_snapshot 102)\<lparr> bid_up := fl (55 / 100), ask_up := fl (55 / 100),
                           btc_price := 50000 \<rparr>"

definition ex_jump_alert :: alert where
  "ex_jump_alert = price_jump_alert ex_jump_now 0 ''UP'' (fl (55 / 100)) (fl (40 / 100))"

text \<open>
  A detector that trades, with three snapshots in its history and a window loaded; and one
  with two snapshots only.
\<close>

definition ex_trading_detector :: manipulation_detector where
  "ex_trading_detector =
     (init_detector True)
       \<lparr> history := [ex_jump_prev, ex_jump_prev, ex_jump_prev],
         window := Some (ex_window ''epoch-1'') \<rparr>"

definition ex_short_detector :: manipulation_detector where
  "ex_short_detector = (init_detector True)\<lparr> history := [ex_jump_prev, ex_jump_prev] \<rparr>"

text \<open>
  A call of \<open>emit\<close> in which nothing fails (no payload below has a float key, so any
  \<open>float_repr\<close> will do); a bus with every destination configured, one subscriber and
  one connected socket client; and three payloads: one of strings and numbers, one that
  holds a tuple, one that holds a set.
\<close>

definition ex_bus_env :: bus_env where
  "ex_bus_env =
     \<lparr> now_iso = ''2026-02-21T18:45:00+00:00'', float_repr = (\<lambda>f. ''0.5''),
       write_fails = False, print_fails = False, callback_raises = (\<lambda>cb. False),
       sendall_fails = (\<lambda>c. False), post_fails = False \<rparr>"

definition ex_bus :: alert_bus where
  "ex_bus =
     \<lparr> file_enabled = True, file_path = ''data/alerts.jsonl'', socket_enabled = True,
       socket_path = ''/tmp/nonce-guard.sock'', webhook_url = Some ''http://localhost/hook'',
       stdout = False, subscribers = [1], socket_clients = [7], file_lines = [] \<rparr>"

definition ex_payload :: "(pyval \<times> pyval) list" where
  "ex_payload = [(PStr ''caller'', PStr ''0xabc''), (PStr ''block'', PInt 12345678)]"

definition ex_tuple_payload :: "(pyval \<times> pyval) list" where
  "ex_tuple_payload = [(PStr ''pair'', PTuple [PInt 1, PInt 2])]"

definition ex_set_payload :: "(pyval \<times> pyval) list" where
  "ex_set_payload = [(PStr ''callers'', PObj ''set'')]"

text \<open>
  A client whose \<open>place_limit_buy\<close> raises; a snapshot in which the UP quote is back at
  0.40; and a detector that trades, has a window loaded and last saw the UP quote at 0.55.
\<close>

definition ex_raising_env :: env where
  "ex_raising_env = \<lparr> time_time = (\<lambda>atype. 1000), append_ok = (\<lambda>atype. True),
                      place_limit_buy = (\<lambda>token price size. Inl ClientError) \<rparr>"

definition ex_drop_snapshot :: book_snapshot where
  "ex_drop_snapshot = ex_jump_prev\<lparr> snap_ts := 104 \<rparr>"

definition ex_raising_detector :: manipulation_detector where
  "ex_raising_detector =
     (init_detector True)
       \<lparr> history := [ex_jump_prev, ex_jump_now],
         window := Some (ex_window ''epoch-1'') \<rparr>"

text \<open>A run of events that neither takes nor releases the lock.\<close>

definition lock_free :: "event list \<Rightarrow> bool" where
  "lock_free es = (Acquire \<notin> set es \<and> Release \<notin> set es)"

text \<open>What the loop over the subscribers does, between taking and releasing the lock.\<close>

definition callback_events :: "bus_env \<Rightarrow> alert_bus \<Rightarrow> event list" where
  "callback_events ev b =
     concat (map (\<lambda>cb. if callback_raises ev cb
                          then [Callback cb False, LogError ''Subscriber error'']
                          else [Callback cb True])
               (subscribers b))"

section \<open>Facts about the float model\<close>

lemma fl_zero: "fl 0 = 0"
  by (simp add: fl_def)

lemma ALERT_COOLDOWN_val: "ALERT_COOLDOWN = 15"
  unfolding ALERT_COOLDOWN_def by code_simp

section \<open>The cooldown gate\<close>

lemma fire_alert_admitted:
  assumes "can_alert now d (alert_type a)"
  shows "alerts (fire_alert now ok a d) = alerts d @ [a]"
    and "last_alert_time (fire_alert now ok a d) = (last_alert_time d)(alert_type a \<mapsto> ts a)"
    and "alert_count (fire_alert now ok a d) = alert_count d + 1"
  using assms by (simp_all add: fire_alert_def Let_def)

lemma fire_alert_suppressed:
  assumes "\<not> can_alert now d (alert_type a)"
  shows "fire_alert now ok a d = d"
  using assms by (simp add: fire_alert_def)

section \<open>The snapshot history\<close>

lemma deque_append_length: "length xs \<le> n \<Longrightarrow> length (deque_append n xs x) \<le> n"
  by (auto simp: deque_append_def Let_def)

lemma deque_append_drop:
  "length xs \<le> n \<Longrightarrow> deque_append n xs x = drop (length xs + 1 - n) (xs @ [x])"
proof (cases "length xs < n")
  case True
  then show ?thesis by (simp add: deque_append_def Let_def)
next
  case False
  assume "length xs \<le> n"
  with False have eq: "length xs = n" by simp
  then have "deque_append n xs x = tl (xs @ [x])" by (simp add: deque_append_def Let_def)
  also have "\<dots> = drop 1 (xs @ [x])" by (metis One_nat_def drop_0 drop_Suc)
  finally show ?thesis using eq by simp
qed

lemma foldl_deque_append:
  "length xs \<le> n \<Longrightarrow> foldl (deque_append n) xs ss = drop (length (xs @ ss) - n) (xs @ ss)"
proof (induction ss arbitrary: xs)
  case Nil
  then show ?case by simp
next
  case (Cons s ss)
  define a where "a = length xs + 1 - n"
  define ys where "ys = deque_append n xs s"
  have len: "length ys \<le> n"
    unfolding ys_def using Cons.prems by (rule deque_append_length)
  have ys: "ys = drop a (xs @ [s])"
    unfolding ys_def a_def using Cons.prems by (rule deque_append_drop)
  have a_le: "a \<le> length (xs @ [s])" by (simp add: a_def)
  have gen: "drop a zs @ ss = drop a (zs @ ss)" if "a \<le> length zs" for zs :: "'a list"
    using that by simp
  have app: "ys @ ss = drop a (xs @ s # ss)"
    using gen[OF a_le] by (simp only: ys append_assoc append_Cons append_Nil)
  have ly: "length ys = length xs + 1 - a" by (simp add: ys)
  have "foldl (deque_append n) xs (s # ss) = foldl (deque_append n) ys ss"
    by (simp add: ys_def)
  also have "\<dots> = drop (length (ys @ ss) - n) (ys @ ss)" using Cons.IH[OF len] .
  also have "\<dots> = drop (length ys + length ss - n) (drop a (xs @ s # ss))"
    by (simp only: app[symmetric] length_append)
  also have "\<dots> = drop (length ys + length ss - n + a) (xs @ s # ss)"
    by (simp only: drop_drop)
  also have "length ys + length ss - n + a = length (xs @ s # ss) - n"
    using Cons.prems by (simp add: ly a_def)
  finally show ?case .
qed

text \<open>
  Claim C6. The history is a deque of capacity \<open>n\<close> (\<open>HISTORY_SIZE\<close>, 60, in the
  detector). Appending any snapshots to an empty history leaves at most \<open>n\<close> of them;
  after \<open>n + k\<close> appends exactly \<open>n\<close> are left, the \<open>k\<close> oldest are gone and the
  others are in insertion order. One more append to a detector history within its capacity
  stays within 60.
\<close>

theorem history_bounded_fifo:
  "length (foldl (deque_append n) [] ss) \<le> n
   \<and> (length ss = n + k \<longrightarrow>
        length (foldl (deque_append n) [] ss) = n
        \<and> foldl (deque_append n) [] ss = drop k ss)
   \<and> (length xs \<le> HISTORY_SIZE \<longrightarrow> length (deque_append HISTORY_SIZE xs x) \<le> 60)"
proof -
  have e: "foldl (deque_append n) [] ss = drop (length ss - n) ss"
    using foldl_deque_append[of "[]" n ss] by simp
  show ?thesis
    using deque_append_length[of xs HISTORY_SIZE x] by (auto simp: e HISTORY_SIZE_def)
qed

theorem history_bounded_fifo_witness:
  "length (foldl (deque_append 2) [] [1::nat, 2, 3, 4, 5]) \<le> 2
   \<and> length (foldl (deque_append 2) [] [1::nat, 2, 3, 4, 5]) = 2
   \<and> foldl (deque_append 2) [] [1::nat, 2, 3, 4, 5] = [4, 5]"
  using history_bounded_fifo[of 2 "[1::nat, 2, 3, 4, 5]" 3 "[]" "0::nat"]
  by (simp add: deque_append_def)

section \<open>The cooldown gate: claims\<close>

lemma fsub_zero_right: "fsub x 0 = fl x" by (simp add: fsub_def)

text \<open>
  Claim C2, as stated, fails: a detector with no record for the type does not admit a
  candidate checked at clock reading 10, since a missing record counts as time 0.
\<close>

theorem deduper_admit_counterexample:
  "last_alert_time (init_detector False) (alert_type (ex_alert 10)) = None
   \<and> alerts (fire_alert 10 True (ex_alert 10) (init_detector False)) = []"
  by code_simp

text \<open>
  Claim C2, amended. For every alert type and every clock reading \<open>now\<close>, the candidate
  is admitted (appended to the alerts) exactly when \<open>now - last\<close> is at least the
  cooldown of 15 seconds, where \<open>last\<close> is the recorded time of the type and 0 when
  there is none; a candidate that is not admitted leaves the detector as it was; and an
  admitted candidate stamped \<open>now\<close> makes \<open>now\<close> the recorded time of its type.
\<close>

theorem deduper_admit:
  "((alerts (fire_alert now ok a d) = alerts d @ [a])
      = (ALERT_COOLDOWN \<le> fsub now (case last_alert_time d (alert_type a) of
                                        None \<Rightarrow> 0 | Some t \<Rightarrow> t)))
   \<and> (alerts (fire_alert now ok a d) = alerts d @ [a] \<or> fire_alert now ok a d = d)
   \<and> (alerts (fire_alert now ok a d) = alerts d @ [a] \<and> ts a = now
        \<longrightarrow> last_alert_time (fire_alert now ok a d) (alert_type a) = Some now)"
  by (cases "last_alert_time d (alert_type a)")
     (simp_all add: fire_alert_def can_alert_def Let_def)

theorem deduper_admit_witness:
  "alerts (fire_alert 1015 True (ex_alert 1015) ex_fired_detector)
     = alerts ex_fired_detector @ [ex_alert 1015]
   \<and> last_alert_time ex_fired_detector ''DEPTH_DROP'' = Some 1000
   \<and> ALERT_COOLDOWN \<le> fsub 1015 1000
   \<and> last_alert_time (fire_alert 1015 True (ex_alert 1015) ex_fired_detector) ''DEPTH_DROP''
       = Some 1015"
proof -
  have l: "last_alert_time ex_fired_detector ''DEPTH_DROP'' = Some 1000" by code_simp
  have c: "ALERT_COOLDOWN \<le> fsub 1015 1000" by code_simp
  have t: "ts (ex_alert 1015) = 1015" "alert_type (ex_alert 1015) = ''DEPTH_DROP''"
    by (simp_all add: ex_alert_def)
  from deduper_admit[of 1015 True "ex_alert 1015" ex_fired_detector] l c t
  show ?thesis by simp
qed

text \<open>
  Claim C3 on a concrete run. An alert stamped 1000 is admitted at clock reading 1000; the
  next candidate of the type carries the stamp 1014.5 of its snapshot and reaches the gate
  at clock reading 1015. Both are admitted, and their timestamps are 14.5 seconds apart,
  less than the cooldown.
\<close>

theorem cooldown_spacing_violated:
  "alerts (fire_alert 1015 True (ex_alert (2029 / 2))
            (fire_alert 1000 True (ex_alert 1000) (init_detector False)))
     = [ex_alert 1000, ex_alert (2029 / 2)]
   \<and> fsub (ts (ex_alert (2029 / 2))) (ts (ex_alert 1000)) = 29 / 2
   \<and> fsub (ts (ex_alert (2029 / 2))) (ts (ex_alert 1000)) < ALERT_COOLDOWN"
  by code_simp

text \<open>
  Claim C10. A candidate that the cooldown gate rejects leaves the whole detector state
  unchanged: the recorded times, the alert counter, the alert list, the alert log file
  and the logger output. This is the case in particular when the type has a recorded time
  \<open>t\<close> with \<open>now - t\<close> below the cooldown.
\<close>

theorem suppressed_fire_is_noop:
  "(\<not> can_alert now d (alert_type a) \<longrightarrow> fire_alert now ok a d = d)
   \<and> (last_alert_time d (alert_type a) = Some t \<and> fsub now t < ALERT_COOLDOWN
        \<longrightarrow> fire_alert now ok a d = d)"
  by (simp add: fire_alert_def can_alert_def Let_def)

theorem suppressed_fire_is_noop_witness:
  "last_alert_time ex_fired_detector (alert_type (ex_alert 1010)) = Some 1000
   \<and> fsub 1010 1000 < ALERT_COOLDOWN
   \<and> fire_alert 1010 True (ex_alert 1010) ex_fired_detector = ex_fired_detector"
proof -
  have l: "last_alert_time ex_fired_detector (alert_type (ex_alert 1010)) = Some 1000"
    by code_simp
  have c: "fsub 1010 1000 < ALERT_COOLDOWN" by code_simp
  from suppressed_fire_is_noop[of 1010 ex_fired_detector "ex_alert 1010" True 1000] l c
  show ?thesis by simp
qed

section \<open>Window rollover\<close>

lemma analyze_short_history:
  "length (history d) < 2 \<Longrightarrow> analyze ev snap d = Inr d"
  by (simp add: analyze_def)

lemma deque_append_empty: "deque_append HISTORY_SIZE [] x = [x]"
  by (simp add: deque_append_def HISTORY_SIZE_def)

text \<open>
  Claim C5. When no window is loaded or the current one has expired, and the fetched
  window is active, the history is empty right after the window is replaced. The detector
  pass of that iteration runs on the empty history and fires nothing, and at the end of
  the iteration the history holds the new snapshot alone, or nothing.
\<close>

theorem rollover_clears_history:
  assumes "cur_window ls = None \<or> is_expired inp"
    and "fetch_window inp = Some w"
    and "is_active w"
  shows "history (detector (fst (refresh_window inp ls))) = []
       \<and> cur_window (fst (refresh_window inp ls)) = Some w
       \<and> history (detector (fst (loop_iteration ev inp ls)))
           = (case get_price inp of
                None \<Rightarrow> []
              | Some btc \<Rightarrow> (case get_full_book inp of None \<Rightarrow> [] | Some snap \<Rightarrow> [snap]))
       \<and> alerts (detector (fst (loop_iteration ev inp ls))) = alerts (detector ls)"
proof -
  have r: "history (detector (fst (refresh_window inp ls))) = []"
    using assms by (simp add: refresh_window_def Let_def split: option.splits)
  have c: "cur_window (fst (refresh_window inp ls)) = Some w"
    using assms by (simp add: refresh_window_def Let_def split: option.splits)
  have a: "alerts (detector (fst (refresh_window inp ls))) = alerts (detector ls)"
    using assms by (simp add: refresh_window_def Let_def split: option.splits)
  have s: "snd (refresh_window inp ls) = (case get_price inp of None \<Rightarrow> Raise TypeError | Some b \<Rightarrow> Fall)"
    using assms by (simp add: refresh_window_def Let_def split: option.splits)
  obtain ls1 f where rw: "refresh_window inp ls = (ls1, f)" by (cases "refresh_window inp ls")
  have h1: "history (detector ls1) = []" and a1: "alerts (detector ls1) = alerts (detector ls)"
    and f: "f = (case get_price inp of None \<Rightarrow> Raise TypeError | Some b \<Rightarrow> Fall)"
    using r a s rw by simp_all
  have an: "analyze ev snap (detector ls1) = Inr (detector ls1)" for snap
    using h1 by (simp add: analyze_short_history)
  have "history (detector (fst (loop_iteration ev inp ls)))
           = (case get_price inp of
                None \<Rightarrow> []
              | Some btc \<Rightarrow> (case get_full_book inp of None \<Rightarrow> [] | Some snap \<Rightarrow> [snap]))"
    using h1 f by (simp add: loop_iteration_def rw poll_def an deque_append_empty
        split: option.splits)
  moreover have "alerts (detector (fst (loop_iteration ev inp ls))) = alerts (detector ls)"
    using a1 f by (simp add: loop_iteration_def rw poll_def an split: option.splits)
  ultimately show ?thesis using r c by simp
qed

theorem rollover_clears_history_witness:
  "length (history (detector ex_loop_state)) = 3
   \<and> history (detector (fst (refresh_window ex_rollover ex_loop_state))) = []
   \<and> cur_window (fst (refresh_window ex_rollover ex_loop_state)) = Some (ex_window ''epoch-2'')
   \<and> history (detector (fst (loop_iteration ex_env ex_rollover ex_loop_state)))
       = [zero_snapshot 7]
   \<and> alerts (detector (fst (loop_iteration ex_env ex_rollover ex_loop_state))) = []"
proof -
  have h: "cur_window ex_loop_state = None \<or> is_expired ex_rollover"
    "fetch_window ex_rollover = Some (ex_window ''epoch-2'')"
    "is_active (ex_window ''epoch-2'')"
    by (simp_all add: ex_rollover_def ex_window_def)
  have g: "get_price ex_rollover = Some 50000" "get_full_book ex_rollover = Some (zero_snapshot 7)"
    "alerts (detector ex_loop_state) = []" "length (history (detector ex_loop_state)) = 3"
    by (simp_all add: ex_rollover_def ex_loop_state_def init_detector_def)
  from rollover_clears_history[OF h, of ex_env] g show ?thesis by simp
qed

section \<open>Evaluating floats\<close>

text \<open>
  The exponent of a positive rational, from any fraction that denotes it; with these
  equations the simplifier evaluates \<open>fl\<close> on numerals.
\<close>

lemma floorlog2_rat_bounds:
  assumes "0 < (n::int)"
  shows "(2::rat) ^ (floorlog 2 (nat n) - 1) \<le> of_int n" "of_int n < (2::rat) ^ floorlog 2 (nat n)"
    "0 < floorlog 2 (nat n)"
proof -
  have pos: "0 < nat n" using assms by simp
  from floorlog_bounds[OF pos, of 2]
  have b: "2 ^ (floorlog 2 (nat n) - 1) \<le> nat n" "nat n < 2 ^ floorlog 2 (nat n)" by simp_all
  have "(of_nat (2 ^ (floorlog 2 (nat n) - 1)) :: rat) \<le> of_nat (nat n)"
    using b(1) by (simp only: of_nat_le_iff)
  then show "(2::rat) ^ (floorlog 2 (nat n) - 1) \<le> of_int n" using assms by simp
  have "(of_nat (nat n) :: rat) < of_nat (2 ^ floorlog 2 (nat n))"
    using b(2) by (simp only: of_nat_less_iff)
  then show "of_int n < (2::rat) ^ floorlog 2 (nat n)" using assms by simp
  show "0 < floorlog 2 (nat n)" using pos by (simp add: floorlog_def)
qed

lemma ilog2_bounds:
  assumes "0 < q"
  shows "power_int 2 (ilog2 q) \<le> q \<and> q < power_int 2 (ilog2 q + 1)"
proof -
  obtain n d where qd: "quotient_of q = (n, d)" by (cases "quotient_of q")
  have d: "0 < d" using qd by (rule quotient_of_denom_pos)
  have q: "q = of_int n / of_int d" using qd by (rule quotient_of_div)
  have n: "0 < n" using assms d q by (simp add: zero_less_divide_iff)
  define a where "a = floorlog 2 (nat n)"
  define b where "b = floorlog 2 (nat d)"
  define e where "e = int a - int b"
  note nb = floorlog2_rat_bounds[OF n, folded a_def]
  note db = floorlog2_rat_bounds[OF d, folded b_def]
  have dpos: "(0::rat) < of_int d" using d by simp
  have pa: "power_int (2::rat) (int a) = 2 ^ a" and pb: "power_int (2::rat) (int b) = 2 ^ b"
    by simp_all
  have pa1: "power_int (2::rat) (int a - 1) = 2 ^ (a - 1)"
    using nb(3) by (metis of_nat_1 of_nat_diff power_int_of_nat Suc_leI One_nat_def)
  have pb1: "power_int (2::rat) (int b - 1) = 2 ^ (b - 1)"
    using db(3) by (metis of_nat_1 of_nat_diff power_int_of_nat Suc_leI One_nat_def)
  have up: "q < power_int 2 (e + 1)"
  proof -
    have e1: "e + 1 = int a - (int b - 1)" by (simp add: e_def)
    have "power_int (2::rat) (int a - (int b - 1))
            = power_int 2 (int a) / power_int 2 (int b - 1)"
      by (rule power_int_diff) simp
    then have "power_int (2::rat) (e + 1) = 2 ^ a / 2 ^ (b - 1)"
      by (simp only: e1 pa pb1)
    moreover have "of_int n / of_int d < (2::rat) ^ a / 2 ^ (b - 1)"
      using nb(2) db(1) dpos n by (intro frac_less) simp_all
    ultimately show ?thesis by (simp add: q)
  qed
  have lo: "power_int 2 (e - 1) \<le> q"
  proof -
    have e1: "e - 1 = (int a - 1) - int b" by (simp add: e_def)
    have "power_int (2::rat) ((int a - 1) - int b)
            = power_int 2 (int a - 1) / power_int 2 (int b)"
      by (rule power_int_diff) simp
    then have "power_int (2::rat) (e - 1) = 2 ^ (a - 1) / 2 ^ b"
      by (simp only: e1 pa1 pb)
    moreover have "(2::rat) ^ (a - 1) / 2 ^ b \<le> of_int n / of_int d"
      using nb(1) db(2) dpos n by (intro frac_le) simp_all
    ultimately show ?thesis by (simp add: q)
  qed
  have il: "ilog2 q = (if q < power_int 2 e then e - 1 else e)"
    by (simp add: ilog2_def qd Let_def a_def b_def e_def)
  show ?thesis using up lo by (auto simp: il)
qed

lemma power_int2_unique:
  fixes q :: rat
  assumes "power_int 2 a \<le> q" "q < power_int 2 (a + 1)"
    and "power_int 2 b \<le> q" "q < power_int 2 (b + 1)"
  shows "a = b"
proof (rule ccontr)
  assume "a \<noteq> b"
  then consider "a + 1 \<le> b" | "b + 1 \<le> a" by linarith
  then show False
  proof cases
    case 1
    then have "power_int (2::rat) (a + 1) \<le> power_int 2 b" by (intro power_int_increasing) simp_all
    with assms show False by linarith
  next
    case 2
    then have "power_int (2::rat) (b + 1) \<le> power_int 2 a" by (intro power_int_increasing) simp_all
    with assms show False by linarith
  qed
qed

lemma ilog2_eqI:
  assumes "power_int 2 e \<le> q" "q < power_int 2 (e + 1)"
  shows "ilog2 q = e"
proof -
  have "(0::rat) < power_int 2 e" by simp
  with assms have "0 < q" by linarith
  from ilog2_bounds[OF this] assms show ?thesis
    by (intro power_int2_unique[of "ilog2 q" q e]) simp_all
qed

lemma floor_rat_numeral_div:
  "\<lfloor>(numeral a :: rat) / numeral b\<rfloor> = numeral a div numeral b"
  using floor_divide_of_int_eq[of "numeral a" "numeral b", where ?'a = rat] by simp

lemma ilog2_frac:
  assumes n: "0 < n" and d: "0 < d"
  shows "ilog2 (of_int n / of_int d)
           = (let e = int (floorlog 2 (nat n)) - int (floorlog 2 (nat d))
              in if (of_int n / of_int d :: rat) < power_int 2 e then e - 1 else e)"
proof -
  define q :: rat where "q = of_int n / of_int d"
  define a where "a = floorlog 2 (nat n)"
  define b where "b = floorlog 2 (nat d)"
  define e where "e = int a - int b"
  note nb = floorlog2_rat_bounds[OF n, folded a_def]
  note db = floorlog2_rat_bounds[OF d, folded b_def]
  have dpos: "(0::rat) < of_int d" using d by simp
  have pa: "power_int (2::rat) (int a) = 2 ^ a" and pb: "power_int (2::rat) (int b) = 2 ^ b"
    by simp_all
  have pa1: "power_int (2::rat) (int a - 1) = 2 ^ (a - 1)"
    using nb(3) by (metis of_nat_1 of_nat_diff power_int_of_nat Suc_leI One_nat_def)
  have pb1: "power_int (2::rat) (int b - 1) = 2 ^ (b - 1)"
    using db(3) by (metis of_nat_1 of_nat_diff power_int_of_nat Suc_leI One_nat_def)
  have up: "q < power_int 2 (e + 1)"
  proof -
    have e1: "e + 1 = int a - (int b - 1)" by (simp add: e_def)
    have "power_int (2::rat) (int a - (int b - 1))
            = power_int 2 (int a) / power_int 2 (int b - 1)"
      by (rule power_int_diff) simp
    then have "power_int (2::rat) (e + 1) = 2 ^ a / 2 ^ (b - 1)"
      by (simp only: e1 pa pb1)
    moreover have "of_int n / of_int d < (2::rat) ^ a / 2 ^ (b - 1)"
      using nb(2) db(1) dpos n by (intro frac_less) simp_all
    ultimately show ?thesis by (simp add: q_def)
  qed
  have lo: "power_int 2 (e - 1) \<le> q"
  proof -
    have e1: "e - 1 = (int a - 1) - int b" by (simp add: e_def)
    have "power_int (2::rat) ((int a - 1) - int b)
            = power_int 2 (int a - 1) / power_int 2 (int b)"
      by (rule power_int_diff) simp
    then have "power_int (2::rat) (e - 1) = 2 ^ (a - 1) / 2 ^ b"
      by (simp only: e1 pa1 pb)
    moreover have "(2::rat) ^ (a - 1) / 2 ^ b \<le> of_int n / of_int d"
      using nb(1) db(2) dpos n by (intro frac_le) simp_all
    ultimately show ?thesis by (simp add: q_def)
  qed
  have "ilog2 q = (if q < power_int 2 e then e - 1 else e)"
    using up lo by (intro ilog2_eqI) auto
  then show ?thesis by (simp add: q_def e_def a_def b_def Let_def)
qed

lemma ilog2_numeral_div:
  "ilog2 (numeral x / numeral y)
     = (let e = int (floorlog 2 (numeral x)) - int (floorlog 2 (numeral y))
        in if (numeral x / numeral y :: rat) < power_int 2 e then e - 1 else e)"
  using ilog2_frac[of "numeral x" "numeral y"] by simp

lemma ilog2_numeral:
  "ilog2 (numeral x) = int (floorlog 2 (numeral x)) - 1"
proof -
  define a where "a = floorlog 2 (nat (numeral x))"
  note nb = floorlog2_rat_bounds[of "numeral x", folded a_def]
  have pa1: "power_int (2::rat) (int a - 1) = 2 ^ (a - 1)"
    using nb(3) by (metis of_nat_1 of_nat_diff power_int_of_nat Suc_leI One_nat_def zero_less_numeral)
  have "int a - 1 + 1 = int a" by simp
  then have pa: "power_int (2::rat) (int a - 1 + 1) = 2 ^ a" by (simp only: power_int_of_nat)
  have "ilog2 (of_int (numeral x)) = int a - 1"
    using nb(1,2) by (intro ilog2_eqI) (simp_all only: pa pa1 zero_less_numeral)
  then show ?thesis by (simp add: a_def)
qed

lemma floorlog2_One: "floorlog 2 (numeral Num.One) = 1"
  by (subst compute_floorlog) (simp add: compute_floorlog)

lemma floorlog2_Bit0: "floorlog 2 (numeral (Num.Bit0 n)) = floorlog 2 (numeral n) + 1"
  by (subst compute_floorlog) simp

lemma floorlog2_Bit1: "floorlog 2 (numeral (Num.Bit1 n)) = floorlog 2 (numeral n) + 1"
  by (subst compute_floorlog) simp

lemma floorlog2_1: "floorlog 2 1 = 1"
  using floorlog2_One by simp

lemma ilog2_one: "ilog2 1 = 0"
  by (rule ilog2_eqI) simp_all

lemma floorlog2_Suc0: "floorlog 2 (Suc 0) = 1"
  using floorlog2_One by simp

lemma ilog2_one_div_numeral:
  "ilog2 (1 / numeral y)
     = (let e = 1 - int (floorlog 2 (numeral y))
        in if (1 / numeral y :: rat) < power_int 2 e then e - 1 else e)"
  using ilog2_frac[of 1 "numeral y"] by (simp add: floorlog2_Suc0)

lemmas float_eval = floorlog2_Suc0 ilog2_one_div_numeral
  fl_def fadd_def fsub_def fmul_def fabs_def fdiv_def py_round_def round_half_even_def
  ilog2_numeral_div ilog2_numeral ilog2_one
  floorlog2_One floorlog2_Bit0 floorlog2_Bit1 floor_rat_numeral_div power_int_minus Let_def

section \<open>The price-jump detector\<close>

lemmas price_jump_eval =
  price_jump_candidates_def price_jump_candidate_def price_jump_alert_def
  price_jump_items_def price_jump_severity_def btc_pct_move_def mid_up_def mid_down_def
  ex_jump_prev_def ex_jump_now_def ex_jump_alert_def zero_snapshot_def evidence_def
  PRICE_JUMP_THRESHOLD_def BTC_MOVE_THRESHOLD_PCT_def List.map_filter_simps

lemma ex_jump_mids:
  "mid_up ex_jump_prev = fl (40 / 100)" "mid_up ex_jump_now = fl (55 / 100)"
  "mid_down ex_jump_prev = 0" "mid_down ex_jump_now = 0"
  "btc_pct_move ex_jump_now ex_jump_prev = Inr 0"
  by (simp_all add: price_jump_eval float_eval)

lemma ex_jump_candidates:
  "price_jump_candidates ex_jump_now ex_jump_prev = Inr [ex_jump_alert]"
  by (simp add: price_jump_eval float_eval)

lemma ex_jump_alert_fields:
  "severity ex_jump_alert = ''HIGH''"
  "alert_type ex_jump_alert = ''PRICE_JUMP_UP''"
  "evidence ex_jump_alert ''delta'' = Some (PFloat (1351079888211149 / 9007199254740992))"
  by (simp_all add: price_jump_eval float_eval)

text \<open>
  Claim C4, as stated, fails in its last part: for mids 0.40 and 0.55 and an unchanged
  reference price the detector yields one candidate, but its \<open>delta\<close> field is not the
  float 0.15.
\<close>

theorem price_jump_delta_counterexample:
  "mid_up ex_jump_prev = fl (40 / 100) \<and> mid_up ex_jump_now = fl (55 / 100)
   \<and> btc_price ex_jump_now = btc_price ex_jump_prev
   \<and> price_jump_candidates ex_jump_now ex_jump_prev = Inr [ex_jump_alert]
   \<and> evidence ex_jump_alert ''delta'' \<noteq> Some (PFloat (fl (15 / 100)))"
proof -
  have "btc_price ex_jump_now = btc_price ex_jump_prev"
    by (simp add: ex_jump_now_def ex_jump_prev_def)
  moreover have "evidence ex_jump_alert ''delta'' \<noteq> Some (PFloat (fl (15 / 100)))"
    by (simp add: ex_jump_alert_fields(3)) (simp add: float_eval)
  ultimately show ?thesis using ex_jump_mids(1,2) ex_jump_candidates by simp
qed

text \<open>
  Claim C4, amended. For an instrument whose mid is nonzero in both snapshots the detector
  produces a candidate exactly when \<open>delta = |mid_now - mid_prev|\<close> is at least 0.10 and
  the reference move \<open>btc_pct\<close> is below 0.05, all computed in float arithmetic;
  \<open>btc_pct\<close> is \<open>|ref_now - ref_prev| / ref_prev * 100\<close> when the previous reference
  price is not zero. The candidate has type \<open>PRICE_JUMP_\<close> followed by the label,
  severity CRITICAL from 0.20, HIGH from 0.15 and MEDIUM below, and carries \<open>delta\<close> as
  evidence. Mids 0.40 and 0.55 with an unchanged reference price yield exactly one
  candidate; it is HIGH, and its \<open>delta\<close> is the float difference of 0.55 and 0.40, which
  is 1351079888211149 / 2^53 (printed 0.15000000000000002).
\<close>

theorem price_jump_rule:
  "(mid_now \<noteq> 0 \<and> mid_prev \<noteq> 0 \<longrightarrow>
      (price_jump_candidate snap btc_pct label mid_now mid_prev \<noteq> None)
        = (fl (10 / 100) \<le> fabs (fsub mid_now mid_prev) \<and> btc_pct < fl (5 / 100)))
   \<and> (price_jump_candidate snap btc_pct label mid_now mid_prev = Some a \<longrightarrow>
        alert_type a = ''PRICE_JUMP_'' @ label
        \<and> severity a =
            (if fl (20 / 100) \<le> fabs (fsub mid_now mid_prev) then ''CRITICAL''
             else if fl (15 / 100) \<le> fabs (fsub mid_now mid_prev) then ''HIGH''
             else ''MEDIUM'')
        \<and> evidence a ''delta'' = Some (PFloat (fabs (fsub mid_now mid_prev))))
   \<and> (btc_price prev \<noteq> 0 \<longrightarrow>
        btc_pct_move snap prev
          = Inr (fmul (fl (fabs (fsub (btc_price snap) (btc_price prev)) / btc_price prev))
                   100))
   \<and> price_jump_candidates ex_jump_now ex_jump_prev = Inr [ex_jump_alert]
   \<and> severity ex_jump_alert = ''HIGH''
   \<and> evidence ex_jump_alert ''delta'' = Some (PFloat (fsub (fl (55 / 100)) (fl (40 / 100))))
   \<and> fsub (fl (55 / 100)) (fl (40 / 100)) = 1351079888211149 / 9007199254740992"
proof -
  have 1: "mid_now \<noteq> 0 \<and> mid_prev \<noteq> 0 \<longrightarrow>
      (price_jump_candidate snap btc_pct label mid_now mid_prev \<noteq> None)
        = (fl (10 / 100) \<le> fabs (fsub mid_now mid_prev) \<and> btc_pct < fl (5 / 100))"
    by (simp add: price_jump_candidate_def Let_def PRICE_JUMP_THRESHOLD_def
        BTC_MOVE_THRESHOLD_PCT_def)
  have 2: "price_jump_candidate snap btc_pct label mid_now mid_prev = Some a \<longrightarrow>
        alert_type a = ''PRICE_JUMP_'' @ label
        \<and> severity a =
            (if fl (20 / 100) \<le> fabs (fsub mid_now mid_prev) then ''CRITICAL''
             else if fl (15 / 100) \<le> fabs (fsub mid_now mid_prev) then ''HIGH''
             else ''MEDIUM'')
        \<and> evidence a ''delta'' = Some (PFloat (fabs (fsub mid_now mid_prev)))"
    by (auto simp add: price_jump_candidate_def price_jump_alert_def Let_def
        price_jump_severity_def evidence_def split: if_splits)
  have 3: "btc_price prev \<noteq> 0 \<longrightarrow>
        btc_pct_move snap prev
          = Inr (fmul (fl (fabs (fsub (btc_price snap) (btc_price prev)) / btc_price prev))
                   100)"
    by (simp add: btc_pct_move_def fdiv_def)
  have 4: "fsub (fl (55 / 100)) (fl (40 / 100)) = 1351079888211149 / 9007199254740992"
    by (simp add: float_eval)
  have 5: "evidence ex_jump_alert ''delta''
             = Some (PFloat (fsub (fl (55 / 100)) (fl (40 / 100))))"
    by (simp only: 4 ex_jump_alert_fields(3))
  show ?thesis
    using 1 2 3 4 5 ex_jump_candidates ex_jump_alert_fields(1) by (intro conjI) assumption+
qed

theorem price_jump_rule_witness:
  "fl (55 / 100) \<noteq> 0 \<and> fl (40 / 100) \<noteq> 0
   \<and> price_jump_candidate ex_jump_now 0 ''UP'' (fl (55 / 100)) (fl (40 / 100))
       = Some ex_jump_alert
   \<and> fl (10 / 100) \<le> fabs (fsub (fl (55 / 100)) (fl (40 / 100)))
   \<and> (0 :: pyfloat) < fl (5 / 100)
   \<and> alert_type ex_jump_alert = ''PRICE_JUMP_UP''
   \<and> severity ex_jump_alert = ''HIGH''
   \<and> evidence ex_jump_alert ''delta'' = Some (PFloat (1351079888211149 / 9007199254740992))
   \<and> btc_price ex_jump_prev \<noteq> 0
   \<and> btc_pct_move ex_jump_now ex_jump_prev = Inr 0"
proof -
  have nz: "fl (55 / 100) \<noteq> 0 \<and> fl (40 / 100) \<noteq> 0" by (simp add: float_eval)
  have c: "price_jump_candidate ex_jump_now 0 ''UP'' (fl (55 / 100)) (fl (40 / 100))
             = Some ex_jump_alert"
    by (simp add: price_jump_eval float_eval)
  have b: "btc_price ex_jump_prev \<noteq> 0" by (simp add: ex_jump_prev_def)
  have v: "(0 :: pyfloat) < fl (5 / 100)" by (simp add: float_eval)
  from price_jump_rule[where mid_now = "fl (55 / 100)" and mid_prev = "fl (40 / 100)"
      and snap = ex_jump_now and btc_pct = 0 and label = "''UP''" and a = ex_jump_alert
      and prev = ex_jump_prev] nz c b v ex_jump_mids(5)
    ex_jump_alert_fields
  show ?thesis by simp
qed

text \<open>
  Without trading, one pass of \<open>_check_price_jump\<close> hands exactly these candidates to
  \<open>_fire_alert\<close>, in order.
\<close>

lemma fire_trade_enabled: "trade_enabled (fire ev a d) = trade_enabled d"
  by (simp add: fire_def fire_alert_def Let_def)

lemma price_jump_fires_candidates:
  assumes "\<not> trade_enabled d"
  shows "check_price_jump ev snap prev d
           = (case price_jump_candidates snap prev of
                Inl e \<Rightarrow> Inl e
              | Inr cs \<Rightarrow> Inr (foldl (\<lambda>d a. fire ev a d) d cs))"
proof (cases "btc_pct_move snap prev")
  case (Inl e)
  then show ?thesis by (simp add: check_price_jump_def price_jump_candidates_def)
next
  case (Inr p)
  have step: "\<not> trade_enabled s \<Longrightarrow> price_jump_step ev snap p (l, m, n) s
      = Inr (case price_jump_candidate snap p l m n of None \<Rightarrow> s | Some a \<Rightarrow> fire ev a s)"
    for s l m n
    by (simp add: price_jump_step_def Let_def fire_trade_enabled split: option.splits)
  show ?thesis
    using assms
    by (simp add: check_price_jump_def price_jump_candidates_def Inr price_jump_items_def
        step List.map_filter_simps fire_trade_enabled split: option.splits)
qed

section \<open>The detector pass raises nothing\<close>

lemma fl_cent_pos: "0 < fl (1 / 100)"
  by (simp add: float_eval)

lemma for_each_ok:
  assumes step: "\<And>x s. P s \<Longrightarrow> \<exists>s'. body x s = Inr s' \<and> P s'"
    and "P s"
  shows "\<exists>s'. for_each body xs s = Inr s' \<and> P s'"
  using \<open>P s\<close>
proof (induction xs arbitrary: s)
  case Nil
  then show ?case by simp
next
  case (Cons x xs)
  from step[OF Cons.prems, of x] obtain s1 where s1: "body x s = Inr s1" "P s1" by blast
  from Cons.IH[OF s1(2)] show ?case by (simp add: s1(1))
qed

lemma py_index_ok:
  "0 < k \<Longrightarrow> k \<le> int (length xs) \<Longrightarrow> \<exists>x. py_index xs (- k) = Inr x"
  by (simp add: py_index_def Let_def)

lemma submit_counter_trade_ok:
  assumes "\<forall>t p s. \<not> isl (place_limit_buy ev t p s)"
  shows "\<exists>d'. submit_counter_trade ev bought tok bp d = Inr d'
               \<and> trade_enabled d' = trade_enabled d"
proof (cases "bp \<le> fl (1 / 100) \<or> fl (99 / 100) \<le> bp")
  case True
  then show ?thesis by (simp add: submit_counter_trade_def)
next
  case False
  then have nz: "bp \<noteq> 0" using fl_cent_pos by auto
  have d: "fdiv COUNTER_TRADE_SIZE bp = Inr (fl (COUNTER_TRADE_SIZE / bp))"
    using nz by (simp add: fdiv_def)
  have no_inl: "place_limit_buy ev t p s \<noteq> Inl e" for t p s e
    using assms by (metis sum.disc(1))
  show ?thesis
    using False no_inl
    by (auto simp add: submit_counter_trade_def d Let_def split: sum.splits option.splits)
qed

lemma counter_trade_ok:
  assumes "\<forall>t p s. \<not> isl (place_limit_buy ev t p s)"
  shows "\<exists>d'. counter_trade ev snap label mid_now mid_prev d = Inr d'
               \<and> trade_enabled d' = trade_enabled d"
  using submit_counter_trade_ok[OF assms]
  by (cases "window d") (simp_all add: counter_trade_def)

lemma btc_pct_move_ok: "\<exists>p. btc_pct_move snap prev = Inr p"
  by (simp add: btc_pct_move_def fdiv_def)

lemma price_jump_step_ok:
  assumes "te \<longrightarrow> (\<forall>t p s. \<not> isl (place_limit_buy ev t p s))"
    and "trade_enabled d = te"
  shows "\<exists>d'. price_jump_step ev snap btc_pct item d = Inr d' \<and> trade_enabled d' = te"
proof -
  obtain label mid_now mid_prev where item: "item = (label, mid_now, mid_prev)"
    by (cases item)
  show ?thesis
  proof (cases "price_jump_candidate snap btc_pct label mid_now mid_prev")
    case None
    then show ?thesis using assms by (simp add: price_jump_step_def item)
  next
    case (Some a)
    show ?thesis
    proof (cases "te \<and> COUNTER_TRADE_EDGE \<le> fabs (fsub mid_now mid_prev)")
      case True
      with assms have tot: "\<forall>t p s. \<not> isl (place_limit_buy ev t p s)" by simp
      from counter_trade_ok[OF tot, of snap label mid_now mid_prev "fire ev a d"]
      show ?thesis
        using True assms(2)
        by (simp add: price_jump_step_def item Some Let_def fire_trade_enabled)
    next
      case False
      then show ?thesis
        using assms(2)
        by (auto simp add: price_jump_step_def item Some Let_def fire_trade_enabled)
    qed
  qed
qed

lemma check_price_jump_ok:
  assumes "te \<longrightarrow> (\<forall>t p s. \<not> isl (place_limit_buy ev t p s))"
    and "trade_enabled d = te"
  shows "\<exists>d'. check_price_jump ev snap prev d = Inr d' \<and> trade_enabled d' = te"
proof -
  obtain p where p: "btc_pct_move snap prev = Inr p" using btc_pct_move_ok by blast
  have "\<exists>d'. for_each (price_jump_step ev snap p) (price_jump_items snap prev) d = Inr d'
              \<and> trade_enabled d' = te"
    by (rule for_each_ok[where P = "\<lambda>d. trade_enabled d = te"])
       (use assms price_jump_step_ok in blast)+
  then show ?thesis by (simp add: check_price_jump_def p)
qed

lemma total_depth_guard: "\<not> total_depth r < 1 \<Longrightarrow> total_depth r \<noteq> 0"
  by auto

lemma check_depth_drop_ok:
  "\<exists>d'. check_depth_drop ev snap d = Inr d' \<and> trade_enabled d' = trade_enabled d"
proof (cases "int (length (history d)) < DEPTH_DROP_WINDOW")
  case True
  then show ?thesis by (simp add: check_depth_drop_def)
next
  case False
  then have "\<exists>x. py_index (history d) (- DEPTH_DROP_WINDOW) = Inr x"
    by (intro py_index_ok) (simp_all add: DEPTH_DROP_WINDOW_def)
  then obtain r where r: "py_index (history d) (- DEPTH_DROP_WINDOW) = Inr r" by blast
  show ?thesis
    using False total_depth_guard[of r]
    by (simp add: check_depth_drop_def r fdiv_def fire_trade_enabled)
qed

lemma check_volume_vanish_ok:
  "\<exists>d'. check_volume_vanish ev snap prev d = Inr d' \<and> trade_enabled d' = trade_enabled d"
  unfolding check_volume_vanish_def
  by (rule for_each_ok[where P = "\<lambda>x. trade_enabled x = trade_enabled d"])
     (auto simp: volume_vanish_step_def fire_trade_enabled)

lemma check_divergence_ok:
  "\<exists>d'. check_divergence ev snap d = Inr d' \<and> trade_enabled d' = trade_enabled d"
  by (cases "start_price d")
     (simp_all add: check_divergence_def fdiv_def Let_def fire_trade_enabled)

lemma check_spread_ok:
  "\<exists>d'. check_spread ev snap prev d = Inr d' \<and> trade_enabled d' = trade_enabled d"
  unfolding check_spread_def
  by (rule for_each_ok[where P = "\<lambda>x. trade_enabled x = trade_enabled d"])
     (auto simp: spread_step_def fdiv_def Let_def fire_trade_enabled)

lemma analyze_ok:
  assumes "trade_enabled d \<longrightarrow> (\<forall>t p s. \<not> isl (place_limit_buy ev t p s))"
  shows "\<exists>d'. analyze ev snap d = Inr d'"
proof (cases "length (history d) < 2")
  case True
  then show ?thesis by (simp add: analyze_def)
next
  case False
  then have "\<exists>x. py_index (history d) (- 1) = Inr x"
    by (intro py_index_ok) simp_all
  then obtain prev where prev: "py_index (history d) (- 1) = Inr prev" by blast
  from check_price_jump_ok[OF assms refl, of snap prev]
  obtain d1 where d1: "check_price_jump ev snap prev d = Inr d1" by blast
  from check_depth_drop_ok[of ev snap d1]
  obtain d2 where d2: "check_depth_drop ev snap d1 = Inr d2" by blast
  from check_volume_vanish_ok[of ev snap prev d2]
  obtain d3 where d3: "check_volume_vanish ev snap prev d2 = Inr d3" by blast
  from check_divergence_ok[of ev snap d3]
  obtain d4 where d4: "check_divergence ev snap d3 = Inr d4" by blast
  from check_spread_ok[of ev snap prev d4]
  obtain d5 where d5: "check_spread ev snap prev d4 = Inr d5" by blast
  show ?thesis using False by (simp add: analyze_def prev d1 d2 d3 d4 d5)
qed

lemma ex_drop_price_jump:
  "check_price_jump ex_raising_env ex_drop_snapshot ex_jump_now ex_raising_detector
     = Inl ClientError"
  by (simp add: check_price_jump_def price_jump_step_def price_jump_eval float_eval
      ex_drop_snapshot_def ex_raising_detector_def ex_raising_env_def init_detector_def
      ex_window_def fire_def fire_alert_def can_alert_def ALERT_COOLDOWN_def
      COUNTER_TRADE_EDGE_def COUNTER_TRADE_SIZE_def counter_trade_def
      submit_counter_trade_def)

text \<open>
  Claim C7, as stated, fails: \<open>_counter_trade\<close> calls the client's \<open>place_limit_buy\<close>
  outside any \<open>try\<close>. With trading enabled, a window loaded and the UP mid falling from
  0.55 to 0.40 while the reference price stays, the price-jump detector fires and orders
  12.5 UP tokens at 0.40; the exception of the client leaves \<open>analyze\<close>.
\<close>

theorem analyze_raises_with_client:
  "trade_enabled ex_raising_detector
   \<and> length (history ex_raising_detector) = 2
   \<and> place_limit_buy ex_raising_env ''epoch-1-up'' (fl (40 / 100)) (25 / 2) = Inl ClientError
   \<and> analyze ex_raising_env ex_drop_snapshot ex_raising_detector = Inl ClientError"
proof -
  have p: "py_index (history ex_raising_detector) (- 1) = Inr ex_jump_now"
    by (simp add: py_index_def ex_raising_detector_def)
  have a: "analyze ex_raising_env ex_drop_snapshot ex_raising_detector = Inl ClientError"
    by (simp add: analyze_def p ex_drop_price_jump) (simp add: ex_raising_detector_def)
  show ?thesis
    using a by (simp add: ex_raising_detector_def init_detector_def ex_raising_env_def)
qed

text \<open>
  Claim C7, amended. For every snapshot, every history and every start price, set or not,
  \<open>analyze\<close> raises nothing, provided that the client's \<open>place_limit_buy\<close> raises
  nothing when the detector trades; without trading there is no proviso. With fewer than
  two snapshots in the history the pass returns at once and leaves the detector as it
  was, and with fewer than three the depth-drop detector does.
\<close>

theorem analyze_never_raises:
  assumes "trade_enabled d \<longrightarrow> (\<forall>t p s. \<not> isl (place_limit_buy ev t p s))"
  shows "\<not> isl (analyze ev snap d)
       \<and> (length (history d) < 2 \<longrightarrow> analyze ev snap d = Inr d)
       \<and> (length (history d) < 3 \<longrightarrow> check_depth_drop ev snap d = Inr d)"
proof -
  from analyze_ok[OF assms] obtain d' where "analyze ev snap d = Inr d'" by blast
  then show ?thesis by (simp add: analyze_def check_depth_drop_def DEPTH_DROP_WINDOW_def)
qed

theorem analyze_never_raises_witness:
  "trade_enabled ex_trading_detector
   \<and> (\<forall>t p s. \<not> isl (place_limit_buy ex_env t p s))
   \<and> length (history ex_trading_detector) = 3
   \<and> \<not> isl (analyze ex_env ex_jump_now ex_trading_detector)
   \<and> length (history ex_short_detector) = 2
   \<and> \<not> isl (analyze ex_env (zero_snapshot 7) ex_short_detector)
   \<and> check_depth_drop ex_env (zero_snapshot 7) ex_short_detector = Inr ex_short_detector
   \<and> analyze ex_env (zero_snapshot 7) (init_detector True) = Inr (init_detector True)"
proof -
  have tot: "\<forall>t p s. \<not> isl (place_limit_buy ex_env t p s)" by (simp add: ex_env_def)
  have h: "trade_enabled ex_trading_detector" "length (history ex_trading_detector) = 3"
    "length (history ex_short_detector) = 2" "length (history (init_detector True)) = 0"
    by (simp_all add: ex_trading_detector_def ex_short_detector_def init_detector_def)
  from analyze_never_raises[of ex_trading_detector ex_env ex_jump_now]
    analyze_never_raises[of ex_short_detector ex_env "zero_snapshot 7"]
    analyze_never_raises[of "init_detector True" ex_env "zero_snapshot 7"] tot h
  show ?thesis by simp
qed

section \<open>The alert bus\<close>

lemmas bus_eval =
  emit_def make_alert_def file_output_def stdout_output_def notify_subscribers_def
  broadcast_socket_def send_webhook_def py_remove_def ALERT_VERSION_def
  ex_bus_env_def ex_bus_def ex_payload_def ex_tuple_payload_def ex_set_payload_def
  dict_get_def dict_of_items_def Let_def

text \<open>
  Claim C1 on two concrete calls. With a set in the payload and a socket client connected,
  the file branch catches the TypeError of \<open>json.dumps\<close>, the subscriber is called, and
  the same error then leaves \<open>_broadcast_socket\<close> and \<open>emit\<close>: nothing is written to the
  client, the webhook is not tried, and no alert is returned. With stdout enabled and a
  failing \<open>print\<close>, the OSError leaves \<open>emit\<close> after the file append, and neither the
  subscriber, the socket client nor the webhook is tried.
\<close>

theorem emit_raises_on_unserialisable:
  "emit ex_bus_env ex_bus ''NONCE_INCREMENT'' ''info'' ''nonce_monitor'' ex_set_payload
     = (ex_bus,
        [FileAppend False, LogError ''Failed to write alert to file'',
         Acquire, Callback 1 True, Release],
        Inl TypeError)
   \<and> emit (ex_bus_env\<lparr> print_fails := True \<rparr>) (ex_bus\<lparr> stdout := True \<rparr>)
         ''NONCE_INCREMENT'' ''info'' ''nonce_monitor'' ex_payload
     = ((ex_bus\<lparr> stdout := True \<rparr>)
          \<lparr> file_lines :=
              [JObject [(''version'', JInt 1),
                        (''timestamp'', JString ''2026-02-21T18:45:00+00:00''),
                        (''code'', JString ''NONCE_INCREMENT''),
                        (''severity'', JString ''info''),
                        (''source'', JString ''nonce_monitor''),
                        (''data'', JObject [(''caller'', JString ''0xabc''),
                                            (''block'', JInt 12345678)])]] \<rparr>,
        [FileAppend True, Print False],
        Inl OSError)"
  by (simp add: bus_eval json_key_def)

lemma remove_dead_general:
  "\<forall>x \<in> set pre. \<not> P x \<Longrightarrow>
     for_each py_remove (filter P xs) (pre @ xs) = Inr (pre @ filter (\<lambda>x. \<not> P x) xs)"
proof (induction xs arbitrary: pre)
  case Nil
  then show ?case by simp
next
  case (Cons x xs)
  show ?case
  proof (cases "P x")
    case True
    then have "x \<notin> set pre" using Cons.prems by blast
    then have "remove1 x (pre @ x # xs) = pre @ xs" by (simp add: remove1_append)
    then show ?thesis using True Cons.IH[OF Cons.prems] by (simp add: py_remove_def)
  next
    case False
    then have "\<forall>y \<in> set (pre @ [x]). \<not> P y" using Cons.prems by simp
    from Cons.IH[OF this] False show ?thesis by simp
  qed
qed

lemma remove_dead:
  "for_each py_remove (filter P xs) xs = Inr (filter (\<lambda>x. \<not> P x) xs)"
  using remove_dead_general[of "[]" P xs] by simp

lemma file_output_fields:
  "subscribers (fst (file_output ev alert b)) = subscribers b"
  "socket_clients (fst (file_output ev alert b)) = socket_clients b"
  "webhook_url (fst (file_output ev alert b)) = webhook_url b"
  "stdout (fst (file_output ev alert b)) = stdout b"
  by (simp_all add: file_output_def split: sum.splits)

lemma notify_subscribers_cong:
  "subscribers b' = subscribers b \<Longrightarrow> notify_subscribers ev b' = notify_subscribers ev b"
  by (simp add: notify_subscribers_def)

text \<open>
  When the alert can be serialised and printing to stdout does not fail, \<open>emit\<close> returns
  the alert and attempts every configured destination, whichever of the file append, the
  callbacks, the socket writes and the POST fail; the clients whose write failed are
  dropped.
\<close>

lemma emit_best_effort:
  fixes ev b code sev source payload
  defines "alert \<equiv> make_alert (now_iso ev) code sev source payload"
  assumes ser: "json_dumps (float_repr ev) alert = Inr line"
    and out: "stdout b \<longrightarrow> \<not> print_fails ev"
  shows "emit ev b code sev source payload
     = ((fst (file_output ev alert b))
          \<lparr> socket_clients := filter (\<lambda>c. \<not> sendall_fails ev c) (socket_clients b) \<rparr>,
        snd (file_output ev alert b)
        @ (if stdout b then [Print True] else [])
        @ notify_subscribers ev b
        @ (if socket_clients b = [] then []
           else [Acquire] @ map (\<lambda>c. SendAll c (\<not> sendall_fails ev c)) (socket_clients b)
                @ [Release])
        @ (case webhook_url b of
             None \<Rightarrow> []
           | Some url \<Rightarrow> if url = [] then [] else send_webhook ev alert),
        Inr alert)"
proof -
  obtain b1 es1 where fo: "file_output ev alert b = (b1, es1)"
    by (cases "file_output ev alert b")
  note ff = file_output_fields[of ev alert b, unfolded fo, simplified]
  have so: "stdout_output ev alert b1 = (if stdout b then [Print True] else [], None)"
    using out by (simp add: stdout_output_def ser ff)
  have ns: "notify_subscribers ev b1 = notify_subscribers ev b"
    using ff(1) by (rule notify_subscribers_cong)
  have bs: "broadcast_socket ev alert b1
      = (b1\<lparr> socket_clients := filter (\<lambda>c. \<not> sendall_fails ev c) (socket_clients b) \<rparr>,
         (if socket_clients b = [] then []
          else [Acquire] @ map (\<lambda>c. SendAll c (\<not> sendall_fails ev c)) (socket_clients b)
               @ [Release]),
         None)"
  proof (cases "socket_clients b = []")
    case True
    then have "b1\<lparr> socket_clients := [] \<rparr> = b1" using ff(2) by simp
    then show ?thesis using True by (simp add: broadcast_socket_def ff)
  next
    case False
    then show ?thesis by (simp add: broadcast_socket_def ff ser Let_def remove_dead)
  qed
  show ?thesis
    unfolding emit_def alert_def[symmetric]
    by (simp add: Let_def fo so ns bs ff)
qed

section \<open>The file transport\<close>

text \<open>
  Claim C8, as stated, fails: a payload that holds a tuple is serialised without error, and
  the line of the file reads back with a list in its place.
\<close>

theorem roundtrip_tuple_counterexample:
  "snd (snd (emit ex_bus_env ex_bus ''NEW_EXPLOITER'' ''info'' ''watchdog'' ex_tuple_payload))
     = Inr (make_alert ''2026-02-21T18:45:00+00:00'' ''NEW_EXPLOITER'' ''info'' ''watchdog''
              ex_tuple_payload)
   \<and> length (file_lines (fst (emit ex_bus_env ex_bus ''NEW_EXPLOITER'' ''info'' ''watchdog''
                                ex_tuple_payload))) = 1
   \<and> dict_get (json_loads (last (file_lines (fst (emit ex_bus_env ex_bus ''NEW_EXPLOITER''
                                                   ''info'' ''watchdog'' ex_tuple_payload)))))
        ''data''
       = Some (PDict [(PStr ''pair'', PList [PInt 1, PInt 2])])
   \<and> Some (PDict [(PStr ''pair'', PList [PInt 1, PInt 2])]) \<noteq> Some (PDict ex_tuple_payload)"
  by (simp add: bus_eval json_key_def)

lemma dict_set_fresh:
  "k \<notin> fst ` set items \<Longrightarrow> dict_set k v items = items @ [(k, v)]"
  by (induction items) auto

lemma foldl_dict_set_distinct:
  "distinct (map fst kvs) \<Longrightarrow> fst ` set kvs \<inter> fst ` set acc = {}
    \<Longrightarrow> foldl (\<lambda>d kv. dict_set (fst kv) (snd kv) d) acc kvs = acc @ kvs"
proof (induction kvs arbitrary: acc)
  case Nil
  then show ?case by simp
next
  case (Cons kv kvs)
  have fresh: "fst kv \<notin> fst ` set acc" using Cons.prems(2) by auto
  have step: "dict_set (fst kv) (snd kv) acc = acc @ [kv]"
    using dict_set_fresh[OF fresh, of "snd kv"] by simp
  have d: "distinct (map fst kvs)" using Cons.prems(1) by simp
  have disj: "fst ` set kvs \<inter> fst ` set (acc @ [kv]) = {}"
    using Cons.prems by auto
  show ?case using Cons.IH[OF d disj] by (simp add: step)
qed

lemma dict_of_items_distinct:
  "distinct (map fst kvs) \<Longrightarrow> dict_of_items kvs = kvs"
  using foldl_dict_set_distinct[of kvs "[]"] by (simp add: dict_of_items_def)

lemma json_loads_items_keys:
  "json_loads_items os = kvs \<Longrightarrow> map fst kvs = map (\<lambda>kv. PStr (fst kv)) os"
  by (induction os arbitrary: kvs) auto

lemma json_roundtrip:
  "json_native v \<longrightarrow> (\<exists>j. json_dumps fr v = Inr j \<and> json_loads j = v)"
  "json_native_list vs \<longrightarrow> (\<exists>js. json_dumps_list fr vs = Inr js \<and> json_loads_list js = vs)"
  "json_native_items kvs \<longrightarrow>
     (\<exists>os. json_dumps_items fr kvs = Inr os \<and> json_loads_items os = kvs)"
proof (induction fr v and fr vs and fr kvs
    rule: json_dumps_json_dumps_list_json_dumps_items.induct)
  case (8 fr items)
  show ?case
  proof
    assume n: "json_native (PDict items)"
    then have ni: "json_native_items items" and di: "distinct (map fst items)" by simp_all
    from 8 ni obtain os where os: "json_dumps_items fr items = Inr os"
      "json_loads_items os = items" by blast
    have "json_loads (JObject os) = PDict items"
      using os(2) di by (simp add: dict_of_items_distinct)
    then show "\<exists>j. json_dumps fr (PDict items) = Inr j \<and> json_loads j = PDict items"
      using os(1) by simp
  qed
next
  case (13 fr kv rest)
  show ?case
  proof
    assume n: "json_native_items (kv # rest)"
    then obtain s where k: "fst kv = PStr s" by (cases "fst kv") simp_all
    have jk: "json_key fr (fst kv) = Inr s" by (simp add: k json_key_def)
    from n have nv: "json_native (snd kv)" and nr: "json_native_items rest" by simp_all
    from 13(1)[OF jk] nv obtain j where j: "json_dumps fr (snd kv) = Inr j"
      "json_loads j = snd kv" by blast
    from 13(2)[OF jk j(1)] nr obtain os where os: "json_dumps_items fr rest = Inr os"
      "json_loads_items os = rest" by blast
    show "\<exists>os. json_dumps_items fr (kv # rest) = Inr os \<and> json_loads_items os = kv # rest"
      using jk j os k by (cases kv) simp
  qed
qed auto

lemma make_alert_native:
  "json_native (PDict payload) \<Longrightarrow> json_native (make_alert t code sev source payload)"
  by (simp add: make_alert_def)

lemma make_alert_get:
  "dict_get (make_alert t code sev source payload) ''code'' = Some (PStr code)"
  "dict_get (make_alert t code sev source payload) ''severity'' = Some (PStr sev)"
  "dict_get (make_alert t code sev source payload) ''data'' = Some (PDict payload)"
  by (simp_all add: make_alert_def dict_get_def)

lemma broadcast_socket_file_lines:
  "file_lines (fst (broadcast_socket ev alert b)) = file_lines b"
  by (simp add: broadcast_socket_def Let_def split: sum.splits)

lemma emit_file_lines:
  "file_lines (fst (emit ev b code sev source payload))
     = file_lines (fst (file_output ev (make_alert (now_iso ev) code sev source payload) b))"
proof -
  define alert where "alert = make_alert (now_iso ev) code sev source payload"
  obtain b1 es1 where fo: "file_output ev alert b = (b1, es1)"
    by (cases "file_output ev alert b")
  obtain es2 r2 where so: "stdout_output ev alert b1 = (es2, r2)"
    by (cases "stdout_output ev alert b1")
  obtain b4 es4 r4 where bs: "broadcast_socket ev alert b1 = (b4, es4, r4)"
    by (cases "broadcast_socket ev alert b1")
  have b4: "file_lines b4 = file_lines b1"
    using broadcast_socket_file_lines[of ev alert b1] by (simp add: bs)
  show ?thesis
    unfolding emit_def alert_def[symmetric]
    by (cases r2; cases r4) (simp_all add: Let_def fo so bs b4)
qed

text \<open>
  Claim C8, amended. When the file transport is enabled, the append does not fail and the
  payload is made of the values JSON has a type for (\<open>None\<close>, booleans, integers, floats,
  strings, lists, and dicts with distinct string keys), \<open>emit\<close> appends one line to the
  file, and that line reads back with the code, the severity and the data of the alert.
\<close>

theorem file_roundtrip:
  assumes "file_enabled b" and "\<not> write_fails ev" and "json_native (PDict payload)"
  shows "file_lines (fst (emit ev b code sev source payload)) \<noteq> []
       \<and> butlast (file_lines (fst (emit ev b code sev source payload))) = file_lines b
       \<and> dict_get (json_loads (last (file_lines (fst (emit ev b code sev source payload)))))
            ''code'' = Some (PStr code)
       \<and> dict_get (json_loads (last (file_lines (fst (emit ev b code sev source payload)))))
            ''severity'' = Some (PStr sev)
       \<and> dict_get (json_loads (last (file_lines (fst (emit ev b code sev source payload)))))
            ''data'' = Some (PDict payload)"
proof -
  define alert where "alert = make_alert (now_iso ev) code sev source payload"
  have "json_native alert" unfolding alert_def using assms(3) by (rule make_alert_native)
  with json_roundtrip(1)[of alert "float_repr ev"]
  obtain line where line: "json_dumps (float_repr ev) alert = Inr line" "json_loads line = alert"
    by blast
  have "file_lines (fst (emit ev b code sev source payload)) = file_lines b @ [line]"
    using assms(1,2) line(1) by (simp add: emit_file_lines alert_def[symmetric] file_output_def)
  then show ?thesis
    by (simp add: line(2) alert_def make_alert_get)
qed

theorem file_roundtrip_witness:
  "file_enabled ex_bus \<and> \<not> write_fails ex_bus_env \<and> json_native (PDict ex_payload)
   \<and> length (file_lines (fst (emit ex_bus_env ex_bus ''NONCE_INCREMENT'' ''info''
                                 ''nonce_monitor'' ex_payload))) = 1
   \<and> dict_get (json_loads (last (file_lines (fst (emit ex_bus_env ex_bus ''NONCE_INCREMENT''
                                                   ''info'' ''nonce_monitor'' ex_payload)))))
        ''data'' = Some (PDict ex_payload)
   \<and> dict_get (json_loads (last (file_lines (fst (emit ex_bus_env ex_bus ''NONCE_INCREMENT''
                                                   ''info'' ''nonce_monitor'' ex_payload)))))
        ''code'' = Some (PStr ''NONCE_INCREMENT'')"
proof -
  have h: "file_enabled ex_bus" "\<not> write_fails ex_bus_env" "json_native (PDict ex_payload)"
    by (simp_all add: ex_bus_def ex_bus_env_def ex_payload_def)
  have l: "length (file_lines (fst (emit ex_bus_env ex_bus ''NONCE_INCREMENT'' ''info''
                                 ''nonce_monitor'' ex_payload))) = 1"
    by (simp add: bus_eval json_key_def)
  from file_roundtrip[OF h, of "''NONCE_INCREMENT''" "''info''" "''nonce_monitor''"] h l
  show ?thesis by simp
qed

section \<open>The lock\<close>

text \<open>
  Claim C9, as stated, fails: the write to a socket client happens while the lock is held.
\<close>

theorem socket_write_under_lock:
  "fst (snd (emit ex_bus_env ex_bus ''NONCE_INCREMENT'' ''info'' ''nonce_monitor'' ex_payload))
     = [FileAppend True, Acquire, Callback 1 True, Release,
        Acquire, SendAll 7 True, Release, Post True]
   \<and> filter is_send
        (under_lock False
           (fst (snd (emit ex_bus_env ex_bus ''NONCE_INCREMENT'' ''info'' ''nonce_monitor''
                        ex_payload))))
       = [SendAll 7 True]"
  by (simp add: bus_eval json_key_def is_send_def)

lemma lock_free_held: "lock_free es \<Longrightarrow> lock_held h es = h"
  by (induction h es rule: lock_held.induct) (auto simp: lock_free_def)

lemma lock_free_under: "lock_free es \<Longrightarrow> under_lock h es = (if h then es else [])"
  by (induction h es rule: under_lock.induct) (auto simp: lock_free_def)

lemma lock_free_outside: "lock_free es \<Longrightarrow> outside_lock h es = (if h then [] else es)"
  by (induction h es rule: outside_lock.induct) (auto simp: lock_free_def)

lemmas lock_free_scan = lock_free_held lock_free_under lock_free_outside

lemma lock_held_append: "lock_held h (es @ fs) = lock_held (lock_held h es) fs"
  by (induction h es rule: lock_held.induct) simp_all

lemma under_lock_append:
  "under_lock h (es @ fs) = under_lock h es @ under_lock (lock_held h es) fs"
  by (induction h es rule: under_lock.induct) simp_all

lemma outside_lock_append:
  "outside_lock h (es @ fs) = outside_lock h es @ outside_lock (lock_held h es) fs"
  by (induction h es rule: outside_lock.induct) simp_all

lemmas scan_append = lock_held_append under_lock_append outside_lock_append

lemma scan_section:
  assumes "lock_free es"
  shows "lock_held h ([Acquire] @ es @ [Release]) = False"
    and "under_lock h ([Acquire] @ es @ [Release]) = es"
    and "outside_lock h ([Acquire] @ es @ [Release]) = []"
  using assms by (simp_all add: scan_append lock_free_scan)

lemma lock_free_file_output: "lock_free (snd (file_output ev alert b))"
  by (simp add: file_output_def lock_free_def split: sum.splits)

lemma lock_free_stdout_output: "lock_free (fst (stdout_output ev alert b))"
  by (simp add: stdout_output_def lock_free_def split: sum.splits)

lemma lock_free_send_webhook: "lock_free (send_webhook ev alert)"
  by (simp add: send_webhook_def lock_free_def split: sum.splits)

lemma lock_free_callbacks: "lock_free (callback_events ev b)"
  by (auto simp: callback_events_def lock_free_def split: if_splits)

lemma notify_subscribers_section:
  "notify_subscribers ev b = [Acquire] @ callback_events ev b @ [Release]"
  by (simp add: notify_subscribers_def callback_events_def)

lemma lock_free_sends: "lock_free (map (\<lambda>c. SendAll c (ok c)) cs)"
  by (auto simp: lock_free_def)

lemma post_not_in_callbacks: "filter is_post (callback_events ev b) = []"
  by (auto simp: callback_events_def is_post_def filter_empty_conv split: if_splits)

lemma scan_notify:
  "lock_held h (notify_subscribers ev b) = False"
  "filter is_post (under_lock h (notify_subscribers ev b)) = []"
  "outside_lock h (notify_subscribers ev b) = []"
  by (simp_all only: notify_subscribers_section scan_section[OF lock_free_callbacks]
      post_not_in_callbacks)

lemma scan_broadcast:
  "lock_held False (fst (snd (broadcast_socket ev alert b))) = False"
  "filter is_post (under_lock False (fst (snd (broadcast_socket ev alert b)))) = []"
  "outside_lock False (fst (snd (broadcast_socket ev alert b))) = []"
proof -
  define sends where "sends = map (\<lambda>c. SendAll c (\<not> sendall_fails ev c)) (socket_clients b)"
  have lf: "lock_free sends" unfolding sends_def by (rule lock_free_sends)
  have np: "filter is_post sends = []"
    by (auto simp: sends_def is_post_def filter_empty_conv)
  have cases: "fst (snd (broadcast_socket ev alert b)) = []
               \<or> fst (snd (broadcast_socket ev alert b)) = [Acquire] @ sends @ [Release]"
    by (simp add: broadcast_socket_def Let_def sends_def split: sum.splits)
  show "lock_held False (fst (snd (broadcast_socket ev alert b))) = False"
    using cases scan_section(1)[OF lf, of False] by auto
  show "filter is_post (under_lock False (fst (snd (broadcast_socket ev alert b)))) = []"
    using cases scan_section(2)[OF lf, of False] np by auto
  show "outside_lock False (fst (snd (broadcast_socket ev alert b))) = []"
    using cases scan_section(3)[OF lf, of False] by auto
qed

lemma not_send_callback:
  "filter is_send (snd (file_output ev alert b)) = []"
  "filter is_callback (snd (file_output ev alert b)) = []"
  "filter is_send (fst (stdout_output ev alert b)) = []"
  "filter is_callback (fst (stdout_output ev alert b)) = []"
  "filter is_send (send_webhook ev alert) = []"
  "filter is_callback (send_webhook ev alert) = []"
  by (simp_all add: file_output_def stdout_output_def send_webhook_def is_send_def
      is_callback_def split: sum.splits)

text \<open>The events of \<open>emit\<close> are those of its five stages, up to the stage that raises.\<close>

lemma emit_events:
  fixes ev b code sev source payload
  defines "alert \<equiv> make_alert (now_iso ev) code sev source payload"
  defines "b1 \<equiv> fst (file_output ev alert b)"
  defines "es1 \<equiv> snd (file_output ev alert b)"
  defines "es2 \<equiv> fst (stdout_output ev alert b1)"
  defines "es3 \<equiv> notify_subscribers ev b1"
  defines "es4 \<equiv> fst (snd (broadcast_socket ev alert b1))"
  shows "\<exists>es5. lock_free es5 \<and> filter is_send es5 = [] \<and> filter is_callback es5 = []
          \<and> (fst (snd (emit ev b code sev source payload)) = es1 @ es2
              \<or> fst (snd (emit ev b code sev source payload)) = es1 @ es2 @ es3 @ es4 @ es5)"
proof -
  obtain b1' es1' where fo: "file_output ev alert b = (b1', es1')"
    by (cases "file_output ev alert b")
  have b1: "b1' = b1" and es1: "es1' = es1" by (simp_all add: b1_def es1_def fo)
  obtain es2' r2 where so: "stdout_output ev alert b1 = (es2', r2)"
    by (cases "stdout_output ev alert b1")
  have es2: "es2' = es2" by (simp add: es2_def so)
  obtain b4 es4' r4 where bs: "broadcast_socket ev alert b1 = (b4, es4', r4)"
    by (cases "broadcast_socket ev alert b1")
  have es4: "es4' = es4" by (simp add: es4_def bs)
  define es5 where "es5 = (case r4 of Some e \<Rightarrow> [] | None \<Rightarrow>
     (case webhook_url b4 of None \<Rightarrow> []
      | Some url \<Rightarrow> if url = [] then [] else send_webhook ev alert))"
  have lf: "lock_free es5 \<and> filter is_send es5 = [] \<and> filter is_callback es5 = []"
    using lock_free_send_webhook[of ev alert] not_send_callback(5,6)[of ev alert]
    by (auto simp: es5_def lock_free_def split: option.splits)
  have "fst (snd (emit ev b code sev source payload)) = es1 @ es2
        \<or> fst (snd (emit ev b code sev source payload)) = es1 @ es2 @ es3 @ es4 @ es5"
    unfolding emit_def alert_def[symmetric]
    by (cases r2; cases r4)
       (simp_all add: Let_def fo b1 es1 so es2 bs es4 es3_def es5_def split: option.splits)
  with lf show ?thesis by blast
qed

text \<open>
  Claim C9, amended. In every call of \<open>emit\<close> the webhook POST is made while the lock
  is free, and the lock is free when the call ends. Every subscriber callback and every
  write to a socket client is made while the lock is held: the two lists are iterated
  under the lock, not copied and iterated outside it.
\<close>

theorem lock_scope:
  "filter is_post (under_lock False (fst (snd (emit ev b code sev source payload)))) = []
   \<and> filter is_send (outside_lock False (fst (snd (emit ev b code sev source payload)))) = []
   \<and> filter is_callback (outside_lock False (fst (snd (emit ev b code sev source payload))))
       = []
   \<and> lock_held False (fst (snd (emit ev b code sev source payload))) = False"
proof -
  define alert where "alert = make_alert (now_iso ev) code sev source payload"
  define b1 where "b1 = fst (file_output ev alert b)"
  define es1 where "es1 = snd (file_output ev alert b)"
  define es2 where "es2 = fst (stdout_output ev alert b1)"
  define es3 where "es3 = notify_subscribers ev b1"
  define es4 where "es4 = fst (snd (broadcast_socket ev alert b1))"
  define es where "es = fst (snd (emit ev b code sev source payload))"
  from emit_events[of ev b code sev source payload]
  obtain es5 where es5: "lock_free es5" "filter is_send es5 = []" "filter is_callback es5 = []"
    and shape: "es = es1 @ es2 \<or> es = es1 @ es2 @ es3 @ es4 @ es5"
    unfolding es_def es1_def es2_def es3_def es4_def b1_def alert_def by blast
  have l1: "lock_free es1" unfolding es1_def by (rule lock_free_file_output)
  have l2: "lock_free es2" unfolding es2_def by (rule lock_free_stdout_output)
  note s1 = lock_free_scan[OF l1] and s2 = lock_free_scan[OF l2] and s5 = lock_free_scan[OF es5(1)]
  note s3 = scan_notify[of _ ev b1, folded es3_def]
  note s4 = scan_broadcast[of ev alert b1, folded es4_def]
  note f1 = not_send_callback(1,2)[of ev alert b, folded es1_def]
  note f2 = not_send_callback(3,4)[of ev alert b1, folded es2_def]
  have short: "filter is_post (under_lock False (es1 @ es2)) = []
      \<and> filter is_send (outside_lock False (es1 @ es2)) = []
      \<and> filter is_callback (outside_lock False (es1 @ es2)) = []
      \<and> lock_held False (es1 @ es2) = False"
    by (simp add: scan_append s1 s2 f1 f2)
  have long: "filter is_post (under_lock False (es1 @ es2 @ es3 @ es4 @ es5)) = []
      \<and> filter is_send (outside_lock False (es1 @ es2 @ es3 @ es4 @ es5)) = []
      \<and> filter is_callback (outside_lock False (es1 @ es2 @ es3 @ es4 @ es5)) = []
      \<and> lock_held False (es1 @ es2 @ es3 @ es4 @ es5) = False"
    by (simp add: scan_append s1 s2 s3 s4 s5 f1 f2 es5)
  from shape short long show ?thesis unfolding es_def[symmetric] by auto
qed

theorem lock_scope_witness:
  "filter is_post (under_lock False
      (fst (snd (emit ex_bus_env ex_bus ''NONCE_INCREMENT'' ''info'' ''nonce_monitor''
                   ex_payload)))) = []
   \<and> filter is_post (outside_lock False
      (fst (snd (emit ex_bus_env ex_bus ''NONCE_INCREMENT'' ''info'' ''nonce_monitor''
                   ex_payload)))) = [Post True]
   \<and> filter is_send (outside_lock False
      (fst (snd (emit ex_bus_env ex_bus ''NONCE_INCREMENT'' ''info'' ''nonce_monitor''
                   ex_payload)))) = []
   \<and> filter is_callback (under_lock False
      (fst (snd (emit ex_bus_env ex_bus ''NONCE_INCREMENT'' ''info'' ''nonce_monitor''
                   ex_payload)))) = [Callback 1 True]"
proof -
  have e: "fst (snd (emit ex_bus_env ex_bus ''NONCE_INCREMENT'' ''info'' ''nonce_monitor''
                       ex_payload))
      = [FileAppend True, Acquire, Callback 1 True, Release,
         Acquire, SendAll 7 True, Release, Post True]"
    by (simp add: bus_eval json_key_def)
  from lock_scope[of ex_bus_env ex_bus "''NONCE_INCREMENT''" "''info''" "''nonce_monitor''"
      ex_payload]
  show ?thesis by (simp add: e is_post_def is_send_def is_callback_def)
qed

end
